theory Spec2Isabelle
  imports Main
begin

section \<open>Go library functions the wrapper calls\<close>

text \<open>
  A Go string is a sequence of bytes; it is modelled as a \<open>string\<close> (a list of
  8-bit characters). Text beyond ASCII is its UTF-8 encoding.
\<close>

subsection \<open>strings.TrimSpace\<close>

text \<open>
  \<open>strings.TrimSpace\<close> removes all leading and all trailing white space, as
  \<open>unicode.IsSpace\<close> defines it: the six ASCII characters tab, line feed, vertical tab,
  form feed, carriage return and space, and the code points U+0085, U+00A0, U+1680,
  U+2000 to U+200A, U+2028, U+2029, U+202F, U+205F and U+3000, each in its UTF-8
  encoding of two or three bytes.
\<close>

definition asciiSpace :: "char \<Rightarrow> bool" where
  "asciiSpace c \<longleftrightarrow>
     c = CHR 0x09 \<or> c = CHR 0x0A \<or> c = CHR 0x0B \<or> c = CHR 0x0C \<or> c = CHR 0x0D \<or> c = CHR 0x20"

text \<open>The second byte of a two-byte white space rune whose first byte is C2.\<close>

definition space2 :: "char \<Rightarrow> bool" where
  "space2 c \<longleftrightarrow> c = CHR 0x85 \<or> c = CHR 0xA0"

text \<open>The three-byte white space runes, by their first, second and third byte.\<close>

definition space3 :: "char \<Rightarrow> char \<Rightarrow> char \<Rightarrow> bool" where
  "space3 a b c \<longleftrightarrow>
     (a = CHR 0xE1 \<and> b = CHR 0x9A \<and> c = CHR 0x80) \<or>
     (a = CHR 0xE2 \<and> b = CHR 0x80 \<and>
        ((128 \<le> (of_char c :: nat) \<and> (of_char c :: nat) \<le> 138) \<or>
         c = CHR 0xA8 \<or> c = CHR 0xA9 \<or> c = CHR 0xAF)) \<or>
     (a = CHR 0xE2 \<and> b = CHR 0x81 \<and> c = CHR 0x9F) \<or>
     (a = CHR 0xE3 \<and> b = CHR 0x80 \<and> c = CHR 0x80)"

text \<open>
  \<open>TrimLeftFunc(s, unicode.IsSpace)\<close>: decode the rune at the front and drop it while
  it is white space. A byte sequence that is not one of the encodings above decodes
  to a rune that is not white space (or to RuneError), and the scan stops there.
\<close>

fun trimLeft :: "string \<Rightarrow> string" where
  "trimLeft [] = []"
| "trimLeft [a] = (if asciiSpace a then [] else [a])"
| "trimLeft [a, b] =
     (if asciiSpace a then trimLeft [b]
      else if a = CHR 0xC2 \<and> space2 b then []
      else [a, b])"
| "trimLeft (a # b # c # s) =
     (if asciiSpace a then trimLeft (b # c # s)
      else if a = CHR 0xC2 \<and> space2 b then trimLeft (c # s)
      else if space3 a b c then trimLeft s
      else a # b # c # s)"

text \<open>
  \<open>TrimRightFunc(s, unicode.IsSpace)\<close>: decode the last rune and drop it while it is
  white space. The last rune is found by walking back over continuation bytes, so it
  is white space exactly when the string ends in one of the encodings; the function
  reads the reversed string, last byte first.
\<close>

fun trimLeftRev :: "string \<Rightarrow> string" where
  "trimLeftRev [] = []"
| "trimLeftRev [a] = (if asciiSpace a then [] else [a])"
| "trimLeftRev [b, a] =
     (if asciiSpace b then trimLeftRev [a]
      else if a = CHR 0xC2 \<and> space2 b then []
      else [b, a])"
| "trimLeftRev (c # b # a # s) =
     (if asciiSpace c then trimLeftRev (b # a # s)
      else if b = CHR 0xC2 \<and> space2 c then trimLeftRev (a # s)
      else if space3 a b c then trimLeftRev s
      else c # b # a # s)"

definition trimRight :: "string \<Rightarrow> string" where
  "trimRight s = rev (trimLeftRev (rev s))"

definition TrimSpace :: "string \<Rightarrow> string" where
  "TrimSpace s = trimRight (trimLeft s)"

subsection \<open>Decimal numbers: strconv.Itoa and the fields of time.Format\<close>

text \<open>The decimal digits of a natural number, most significant first; \<open>0\<close> is "0".\<close>

function digits :: "nat \<Rightarrow> string" where
  "digits n = (if n < 10 then [''0123456789'' ! n]
               else digits (n div 10) @ [''0123456789'' ! (n mod 10)])"
  by pat_completeness auto
termination
  by (relation "measure (\<lambda>n. n)") auto

declare digits.simps [simp del]

text \<open>\<open>strconv.Itoa\<close>: a minus sign for a negative number, then the digits.\<close>

definition Itoa :: "int \<Rightarrow> string" where
  "Itoa x = (if x < 0 then ''-'' else []) @ digits (nat \<bar>x\<bar>)"

text \<open>
  \<open>appendInt\<close> of package time: a minus sign for a negative number, then the digits
  padded with zeros on the left to at least \<open>width\<close> characters.
\<close>

definition appendInt :: "int \<Rightarrow> nat \<Rightarrow> string" where
  "appendInt x width =
     (let ds = digits (nat \<bar>x\<bar>)
      in (if x < 0 then ''-'' else []) @ replicate (width - length ds) CHR ''0'' @ ds)"

text \<open>
  Reading decimal digits back: a digit is one of the bytes 48 to 57, and a digit
  string stands for the number it spells. \<open>fixedDigits w n\<close> are the last \<open>w\<close>
  decimal digits of \<open>n\<close>.
\<close>

definition isDigit :: "char \<Rightarrow> bool" where
  "isDigit c \<longleftrightarrow> 48 \<le> (of_char c :: nat) \<and> (of_char c :: nat) \<le> 57"

definition readNat :: "string \<Rightarrow> nat" where
  "readNat s = foldl (\<lambda>n c. 10 * n + (of_char c - 48)) 0 s"

primrec fixedDigits :: "nat \<Rightarrow> nat \<Rightarrow> string" where
  "fixedDigits 0 n = []"
| "fixedDigits (Suc w) n = fixedDigits w (n div 10) @ [''0123456789'' ! (n mod 10)]"

subsection \<open>time.Time in UTC\<close>

text \<open>
  Package time as in Go 1.21, the release that the setup guide of the repository
  builds with. A \<open>time.Time\<close> in UTC that carries no monotonic clock reading:
  \<open>unixSec\<close> is the number that \<open>t.Unix()\<close> returns, the seconds elapsed since
  1970-01-01T00:00:00Z (negative before it), and \<open>nsec\<close> the nanoseconds within
  that second. In Go the seconds are a signed 64-bit number, from \<open>- 2 ^ 63\<close> to
  \<open>2 ^ 63 - 1\<close>. Here they are an \<open>int\<close>, and wherever the library computes with
  them in 64 bits the reduction modulo \<open>2 ^ 64\<close> is written out.
\<close>

record Time =
  unixSec :: int
  nsec :: nat

text \<open>
  The constants of package time. The library counts seconds from the first second
  of \<open>absoluteZeroYear\<close>, so that the count is unsigned; \<open>31556952\<close> is Go's
  \<open>365.2425 * secondsPerDay\<close>, the mean length of a year in seconds.
\<close>

definition absoluteZeroYear :: int where
  "absoluteZeroYear = - 292277022399"

definition unixToInternal :: int where
  "unixToInternal = (1969 * 365 + 1969 div 4 - 1969 div 100 + 1969 div 400) * 86400"

definition absoluteToInternal :: int where
  "absoluteToInternal = (absoluteZeroYear - 1) * 31556952"

definition internalToAbsolute :: int where
  "internalToAbsolute = - absoluteToInternal"

text \<open>
  \<open>t.abs()\<close>: the seconds since the first second of \<open>absoluteZeroYear\<close>, as a
  \<open>uint64\<close>. The sum is taken in 64 bits, so it wraps around for an instant before
  that year (package time notes that times before it will not compute correctly).
\<close>

definition abs_seconds :: "Time \<Rightarrow> int" where
  "abs_seconds t = (unixSec t + (unixToInternal + internalToAbsolute)) mod 2 ^ 64"

definition isLeap :: "int \<Rightarrow> bool" where
  "isLeap year \<longleftrightarrow> year mod 4 = 0 \<and> (year mod 100 \<noteq> 0 \<or> year mod 400 = 0)"

text \<open>\<open>daysBefore[m]\<close>: the days of a non-leap year before month \<open>m + 1\<close>.\<close>

definition daysBefore :: "int list" where
  "daysBefore = [0, 31, 59, 90, 120, 151, 181, 212, 243, 273, 304, 334, 365]"

text \<open>
  \<open>absDate\<close>, first half: from the count of days since the first day of
  \<open>absoluteZeroYear\<close>, the year and the day within the year (from 0), by cycles of
  400, 100, 4 and 1 years. \<open>n - n div 4\<close> is Go's \<open>n -= n >> 2\<close>, which turns the
  count 4 on the last day of a cycle into 3.
\<close>

definition yearDay :: "int \<Rightarrow> int \<times> int" where
  "yearDay days =
     (let n400 = days div 146097;
          d1 = days - 146097 * n400;
          c100 = d1 div 36524;
          n100 = c100 - c100 div 4;
          d2 = d1 - 36524 * n100;
          n4 = d2 div 1461;
          d3 = d2 - 1461 * n4;
          c1 = d3 div 365;
          n1 = c1 - c1 div 4;
          d4 = d3 - 365 * n1
      in (400 * n400 + 100 * n100 + 4 * n4 + n1 + absoluteZeroYear, d4))"

text \<open>
  \<open>absDate\<close>, second half: month and day of the month (both from 1) of day \<open>yday\<close>
  of \<open>year\<close>. The month is first estimated as if every month had 31 days.
\<close>

definition monthDay :: "int \<Rightarrow> int \<Rightarrow> int \<times> int" where
  "monthDay year yday =
     (if isLeap year \<and> yday = 59 then (2, 29)
      else
        let day = (if isLeap year \<and> yday > 59 then yday - 1 else yday);
            m = nat (day div 31);
            e = daysBefore ! (m + 1)
        in if day \<ge> e then (int m + 2, day - e + 1)
           else (int m + 1, day - daysBefore ! m + 1))"

text \<open>
  \<open>absDate(abs, true)\<close>: year, month and day of a count of seconds since the first
  second of \<open>absoluteZeroYear\<close>.
\<close>

definition absDate :: "int \<Rightarrow> int \<times> int \<times> int" where
  "absDate a = (let (year, yday) = yearDay (a div 86400) in (year, monthDay year yday))"

text \<open>\<open>t.Date()\<close>: year, month and day of the instant.\<close>

definition Date :: "Time \<Rightarrow> int \<times> int \<times> int" where
  "Date t = absDate (abs_seconds t)"

definition Year :: "Time \<Rightarrow> int" where
  "Year t = fst (Date t)"

definition Month :: "Time \<Rightarrow> int" where
  "Month t = fst (snd (Date t))"

definition Day :: "Time \<Rightarrow> int" where
  "Day t = snd (snd (Date t))"

text \<open>
  \<open>daysSinceEpoch(year)\<close>: the days from the first day of \<open>absoluteZeroYear\<close> to
  the first day of \<open>year\<close>, computed in \<open>uint64\<close>.
\<close>

definition daysSinceEpoch :: "int \<Rightarrow> int" where
  "daysSinceEpoch year =
     (let y = (year - absoluteZeroYear) mod 2 ^ 64;
          n400 = y div 400;
          y1 = y - 400 * n400;
          n100 = y1 div 100;
          y2 = y1 - 100 * n100;
          n4 = y2 div 4;
          n1 = y2 - 4 * n4
      in (146097 * n400 + 36524 * n100 + 1461 * n4 + 365 * n1) mod 2 ^ 64)"

text \<open>
  \<open>time.Date(year, month, day, hour, min, sec, nsec, time.UTC)\<close> for a month from 1
  to 12 and a time of day in range (values out of range, which Go carries over, do
  not occur in this package): the days before the year, before the month and before
  the day, then the seconds, counted in \<open>uint64\<close>; the Unix time is the signed
  64-bit number that differs from the count by the two offsets.
\<close>

definition time_Date :: "int \<Rightarrow> int \<Rightarrow> int \<Rightarrow> int \<Rightarrow> int \<Rightarrow> int \<Rightarrow> nat \<Rightarrow> Time" where
  "time_Date year month day hour minute sec ns =
     (let d = daysSinceEpoch year + daysBefore ! nat (month - 1)
              + (if isLeap year \<and> month \<ge> 3 then 1 else 0) + (day - 1);
          a = (d * 86400 + (hour * 3600 + minute * 60 + sec)) mod 2 ^ 64;
          unix = (a - (unixToInternal + internalToAbsolute) + 2 ^ 63) mod 2 ^ 64 - 2 ^ 63
      in \<lparr>unixSec = unix, nsec = ns\<rparr>)"

text \<open>\<open>daysIn(m, year)\<close>: the number of days of month \<open>m\<close> of \<open>year\<close>.\<close>

definition daysIn :: "int \<Rightarrow> int \<Rightarrow> int" where
  "daysIn month year =
     (if month = 2 \<and> isLeap year then 29
      else daysBefore ! nat month - daysBefore ! nat (month - 1))"

subsection \<open>time.Format\<close>

text \<open>
  The layout elements that occur in this package: \<open>2006\<close> (the year, four digits or
  more), \<open>01\<close> (the month, two digits) and \<open>02\<close> (the day, two digits). Any other
  character of a layout is copied as it is; the layouts of this package contain no
  other element.
\<close>

datatype chunk = stdLongYear | stdZeroMonth | stdZeroDay | Literal char

fun nextStdChunk :: "string \<Rightarrow> chunk list" where
  "nextStdChunk [] = []"
| "nextStdChunk (c # cs) =
     (if take 4 (c # cs) = ''2006'' then stdLongYear # nextStdChunk (drop 3 cs)
      else if take 2 (c # cs) = ''01'' then stdZeroMonth # nextStdChunk (drop 1 cs)
      else if take 2 (c # cs) = ''02'' then stdZeroDay # nextStdChunk (drop 1 cs)
      else Literal c # nextStdChunk cs)"

fun appendChunk :: "Time \<Rightarrow> chunk \<Rightarrow> string" where
  "appendChunk t stdLongYear = appendInt (Year t) 4"
| "appendChunk t stdZeroMonth = appendInt (Month t) 2"
| "appendChunk t stdZeroDay = appendInt (Day t) 2"
| "appendChunk t (Literal c) = [c]"

definition Format :: "Time \<Rightarrow> string \<Rightarrow> string" where
  "Format t layout = concat (map (appendChunk t) (nextStdChunk layout))"

section \<open>The wrapper: package keyrotation\<close>

text \<open>
  Every operation of the wrapper builds a command line, runs the binary named by the
  helper's \<open>binaryPath\<close> and reads what it wrote to its standard output. The run is
  the environment of the wrapper: \<open>run name args\<close> is the outcome of
  \<open>exec.Command(name, args...)\<close> with \<open>Stdout\<close> set to a buffer, followed by
  \<open>cmd.Run()\<close>: \<open>Inl\<close> the error that \<open>Run\<close> returned (the program is not found,
  does not start, or exits with a status other than 0), else \<open>Inr\<close> the bytes written
  to the buffer.
\<close>

datatype error = Error string

type_synonym exec = "string \<Rightarrow> string list \<Rightarrow> error + string"

text \<open>\<open>fmt.Errorf(msg + ": %v", err)\<close>: the error whose text is \<open>msg\<close>, ": " and the text of \<open>err\<close>.\<close>

fun Errorf :: "string \<Rightarrow> error \<Rightarrow> error" where
  "Errorf msg (Error e) = Error (msg @ '': '' @ e)"

record KeyRotationHelper =
  binaryPath :: string

definition New :: "KeyRotationHelper" where
  "New = \<lparr>binaryPath = ''./keyrotation-binary''\<rparr>"

definition NewWithBinaryPath :: "string \<Rightarrow> KeyRotationHelper" where
  "NewWithBinaryPath path = \<lparr>binaryPath = path\<rparr>"

text \<open>
  A method of \<open>*KeyRotationHelper\<close> takes the helper and returns its result together
  with the helper as the call leaves it. A Go result \<open>(v, nil)\<close> is \<open>Inr v\<close>; a
  result \<open>("", err)\<close> or \<open>(false, err)\<close> is \<open>Inl err\<close>.
\<close>

definition EncryptApiKey ::
  "exec \<Rightarrow> string \<Rightarrow> KeyRotationHelper \<Rightarrow> (error + string) \<times> KeyRotationHelper" where
  "EncryptApiKey run apiKey k =
     (case run (binaryPath k) [''encrypt'', apiKey] of
        Inl err \<Rightarrow> (Inl (Errorf ''failed to encrypt API key'' err), k)
      | Inr out \<Rightarrow> (Inr (TrimSpace out), k))"

definition EncryptApiKeyWithDate ::
  "exec \<Rightarrow> string \<Rightarrow> Time \<Rightarrow> KeyRotationHelper \<Rightarrow> (error + string) \<times> KeyRotationHelper" where
  "EncryptApiKeyWithDate run apiKey utcDateTime k =
     (let dateStr = Format utcDateTime ''2006-01-02'' in
      case run (binaryPath k) [''encrypt-date'', apiKey, dateStr] of
        Inl err \<Rightarrow> (Inl (Errorf ''failed to encrypt API key with date'' err), k)
      | Inr out \<Rightarrow> (Inr (TrimSpace out), k))"

definition ValidateApiKey ::
  "exec \<Rightarrow> string \<Rightarrow> string \<Rightarrow> Time \<Rightarrow> KeyRotationHelper \<Rightarrow> (error + bool) \<times> KeyRotationHelper" where
  "ValidateApiKey run apiKey encryptedKey utcDateTime k =
     (let dateStr = Format utcDateTime ''2006-01-02'' in
      case run (binaryPath k) [''validate-date'', apiKey, encryptedKey, dateStr] of
        Inl err \<Rightarrow> (Inl (Errorf ''failed to validate API key'' err), k)
      | Inr out \<Rightarrow> (Inr (TrimSpace out = ''true''), k))"

definition ValidateApiKeyWithTolerance ::
  "exec \<Rightarrow> string \<Rightarrow> string \<Rightarrow> Time \<Rightarrow> int \<Rightarrow> KeyRotationHelper
     \<Rightarrow> (error + bool) \<times> KeyRotationHelper" where
  "ValidateApiKeyWithTolerance run apiKey encryptedKey utcDateTime toleranceMinutes k =
     ValidateApiKey run apiKey encryptedKey utcDateTime k"

definition ValidateApiKeyToday ::
  "exec \<Rightarrow> string \<Rightarrow> string \<Rightarrow> KeyRotationHelper \<Rightarrow> (error + bool) \<times> KeyRotationHelper" where
  "ValidateApiKeyToday run apiKey encryptedKey k =
     (case run (binaryPath k) [''validate'', apiKey, encryptedKey] of
        Inl err \<Rightarrow> (Inl (Errorf ''failed to validate API key for today'' err), k)
      | Inr out \<Rightarrow> (Inr (TrimSpace out = ''true''), k))"

definition ValidateApiKeyTodayWithTolerance ::
  "exec \<Rightarrow> string \<Rightarrow> string \<Rightarrow> int \<Rightarrow> KeyRotationHelper \<Rightarrow> (error + bool) \<times> KeyRotationHelper" where
  "ValidateApiKeyTodayWithTolerance run apiKey encryptedKey toleranceMinutes k =
     (case run (binaryPath k)
             [''validate-tolerance'', apiKey, encryptedKey, Itoa toleranceMinutes] of
        Inl err \<Rightarrow> (Inl (Errorf ''failed to validate API key with tolerance'' err), k)
      | Inr out \<Rightarrow> (Inr (TrimSpace out = ''true''), k))"

definition GetDateString :: "Time \<Rightarrow> KeyRotationHelper \<Rightarrow> string \<times> KeyRotationHelper" where
  "GetDateString utcDateTime k = (Format utcDateTime ''20060102'', k)"

section \<open>The key-rotation binary\<close>

text \<open>
  Modelled from the spec: the program the wrapper runs (\<open>keyrotation-binary\<close>, built
  from a private repository) is not among the sources. The definitions of this
  section follow the spec's Key Rotation Codec (operations Encrypt, Validate and
  DateStampOf, error taxonomy) and the command line that the README documents.
  What the spec leaves open is a parameter: the keyed hash, and how the binary reads
  its \<open><date>\<close> argument.
\<close>

text \<open>Modelled from the spec: the error taxonomy of the codec (section 7).\<close>

datatype codec_error = InvalidInput | HashFailure

text \<open>
  Modelled from the spec: \<open>KeyedHash(apiKey, DateStamp)\<close>, the digest as text; the
  spec fixes neither the salt nor the encoding. \<open>None\<close> is the spec's HashFailure.
\<close>

type_synonym keyedHash = "string \<Rightarrow> string \<Rightarrow> string option"

text \<open>
  Modelled from the spec: the digest is a hex or base64 string, so it is not empty
  and all its characters are printable ASCII other than the space.
\<close>

definition digestText :: "string \<Rightarrow> bool" where
  "digestText d \<longleftrightarrow>
     d \<noteq> [] \<and> list_all (\<lambda>c. 33 \<le> (of_char c :: nat) \<and> (of_char c :: nat) \<le> 126) d"

text \<open>
  Modelled from the spec: DateStampOf, the UTC date of an instant as \<open>YYYYMMDD\<close>:
  year, month and day in the digits of layout \<open>20060102\<close>. An instant of the spec
  has no 64-bit bound, so the date is read off the exact count of seconds, which is
  not reduced modulo \<open>2 ^ 64\<close>: two instants of one UTC day always have the same
  DateStamp, as the spec requires of it.
\<close>

definition DateStampOf :: "Time \<Rightarrow> string" where
  "DateStampOf instant =
     (let (year, month, day) = absDate (unixSec instant + (unixToInternal + internalToAbsolute))
      in appendInt year 4 @ appendInt month 2 @ appendInt day 2)"

text \<open>
  Modelled from the spec: Encrypt fails with InvalidInput if the key is empty, else
  hashes the key with the DateStamp of the reference time.
\<close>

definition Encrypt :: "keyedHash \<Rightarrow> string \<Rightarrow> Time \<Rightarrow> codec_error + string" where
  "Encrypt H apiKey referenceTime =
     (if apiKey = [] then Inl InvalidInput
      else case H apiKey (DateStampOf referenceTime) of
             None \<Rightarrow> Inl HashFailure
           | Some digest \<Rightarrow> Inr digest)"

text \<open>Modelled from the spec: an instant moved by a number of minutes.\<close>

definition addMinutes :: "Time \<Rightarrow> int \<Rightarrow> Time" where
  "addMinutes t m = t\<lparr>unixSec := unixSec t + 60 * m\<rparr>"

text \<open>
  Modelled from the spec: step 1 of Validate, the candidate instants: the reference
  time and, for a positive tolerance, the reference time minus and plus the tolerance.
\<close>

definition candidates :: "Time \<Rightarrow> int \<Rightarrow> Time list" where
  "candidates referenceTime toleranceMinutes =
     referenceTime #
       (if toleranceMinutes > 0
        then [addMinutes referenceTime (- toleranceMinutes),
              addMinutes referenceTime toleranceMinutes]
        else [])"

text \<open>
  Modelled from the spec: Validate fails with InvalidInput on an empty key, an empty
  digest or a negative tolerance; else it hashes the key with each distinct DateStamp
  of the candidates and answers whether the digest presented is one of the results.
\<close>

definition Validate ::
  "keyedHash \<Rightarrow> string \<Rightarrow> string \<Rightarrow> Time \<Rightarrow> int \<Rightarrow> codec_error + bool" where
  "Validate H apiKey encryptedKey referenceTime toleranceMinutes =
     (if apiKey = [] \<or> encryptedKey = [] \<or> toleranceMinutes < 0 then Inl InvalidInput
      else
        let stamps = remdups (map DateStampOf (candidates referenceTime toleranceMinutes));
            digests = map (H apiKey) stamps
        in if None \<in> set digests then Inl HashFailure
           else Inr (Some encryptedKey \<in> set digests))"

text \<open>
  Modelled from the spec: the binary's reading of its \<open><tolerance>\<close> argument, a
  decimal integer as \<open>strconv.Atoi\<close> reads it: an optional sign and at least one
  digit, nothing else. (Go also fails on a number beyond 64 bits; the tolerance is an
  unbounded integer here, since the wrapper only prints it.)
\<close>

definition Atoi :: "string \<Rightarrow> int option" where
  "Atoi s =
     (let neg = (take 1 s = ''-'');
          ds = (if take 1 s = ''-'' \<or> take 1 s = ''+'' then drop 1 s else s)
      in if ds = [] \<or> \<not> list_all isDigit ds then None
         else Some (if neg then - int (readNat ds) else int (readNat ds)))"

text \<open>
  Modelled from the spec: what the binary prints. A digest or a truth value is
  written as one line on the standard output.
\<close>

definition println :: "string \<Rightarrow> string" where
  "println s = s @ [CHR 0x0A]"

text \<open>Modelled from the spec: the truth value of a validation as the binary prints it.\<close>

definition formatBool :: "bool \<Rightarrow> string" where
  "formatBool b = (if b then ''true'' else ''false'')"

text \<open>
  Modelled from the spec: the five commands of the binary as the README lists them
  (\<open>encrypt <apikey>\<close>, \<open>encrypt-date <apikey> <date>\<close>, \<open>validate <apikey>
  <encrypted>\<close>, \<open>validate-date <apikey> <encrypted> <date>\<close>, \<open>validate-tolerance
  <apikey> <encrypted> <tolerance>\<close>), each mapped to the codec operation of the spec.
  \<open>now\<close> is the UTC instant at which the binary runs, \<open>readDate\<close> its reading of
  a \<open><date>\<close> argument (\<open>None\<close> if it rejects the text). Any other command line,
  an unreadable date or tolerance is invalid input.
\<close>

definition keyrotation_binary ::
  "keyedHash \<Rightarrow> (string \<Rightarrow> Time option) \<Rightarrow> Time \<Rightarrow> string list \<Rightarrow> codec_error + string" where
  "keyrotation_binary H readDate now args =
     (case args of
        [cmd, apiKey] \<Rightarrow>
          if cmd = ''encrypt'' then map_sum id println (Encrypt H apiKey now)
          else Inl InvalidInput
      | [cmd, apiKey, arg] \<Rightarrow>
          if cmd = ''encrypt-date'' then
            (case readDate arg of
               None \<Rightarrow> Inl InvalidInput
             | Some t \<Rightarrow> map_sum id println (Encrypt H apiKey t))
          else if cmd = ''validate'' then
            map_sum id (\<lambda>b. println (formatBool b)) (Validate H apiKey arg now 0)
          else Inl InvalidInput
      | [cmd, apiKey, encryptedKey, arg] \<Rightarrow>
          if cmd = ''validate-date'' then
            (case readDate arg of
               None \<Rightarrow> Inl InvalidInput
             | Some t \<Rightarrow>
                 map_sum id (\<lambda>b. println (formatBool b)) (Validate H apiKey encryptedKey t 0))
          else if cmd = ''validate-tolerance'' then
            (case Atoi arg of
               None \<Rightarrow> Inl InvalidInput
             | Some tol \<Rightarrow>
                 map_sum id (\<lambda>b. println (formatBool b)) (Validate H apiKey encryptedKey now tol))
          else Inl InvalidInput
      | _ \<Rightarrow> Inl InvalidInput)"

text \<open>
  Modelled from the spec: the binary as the wrapper's environment. It is found under
  whatever name the helper holds; a codec error ends the process with exit status 1,
  which \<open>cmd.Run\<close> reports as an error with that text, and the line printed otherwise
  is the captured output.
\<close>

definition installed :: "(string list \<Rightarrow> codec_error + string) \<Rightarrow> exec" where
  "installed program name args =
     (case program args of
        Inl e \<Rightarrow> Inl (Error ''exit status 1'')
      | Inr out \<Rightarrow> Inr out)"

subsection \<open>A concrete binary\<close>

text \<open>
  Modelled from the spec: one instance of the two parameters, to run the model on
  concrete inputs. The spec's example of a keyed hash is a salted SHA-256 over
  \<open>apiKey || "|" || DateStamp\<close>, written in hex; the stand-in below writes those
  bytes themselves in hex (it is keyed by the date and deterministic, but not one-way,
  and serves for instances only).
\<close>

definition hexEncode :: "string \<Rightarrow> string" where
  "hexEncode s =
     concat (map (\<lambda>c. [''0123456789abcdef'' ! ((of_char c :: nat) div 16),
                        ''0123456789abcdef'' ! ((of_char c :: nat) mod 16)]) s)"

text \<open>Modelled from the spec: the stand-in for the keyed hash, never failing.\<close>

definition sampleHash :: keyedHash where
  "sampleHash apiKey stamp = Some (hexEncode (apiKey @ ''|'' @ stamp))"

text \<open>
  Modelled from the spec: a reading of the \<open><date>\<close> argument in the form the
  wrapper writes it, four digits, two digits and two digits separated by \<open>-\<close>, as
  the start of that UTC day; other text, or a day that the month does not have, is
  rejected.
\<close>

definition sampleReadDate :: "string \<Rightarrow> Time option" where
  "sampleReadDate s =
     (if length s = 10 \<and> take 1 (drop 4 s) = ''-'' \<and> take 1 (drop 7 s) = ''-''
         \<and> list_all isDigit (take 4 s @ take 2 (drop 5 s) @ drop 8 s)
      then
        let y = readNat (take 4 s); m = readNat (take 2 (drop 5 s)); d = readNat (drop 8 s)
        in if 1 \<le> m \<and> m \<le> 12 \<and> 1 \<le> d \<and> int d \<le> daysIn (int m) (int y)
           then Some (time_Date (int y) (int m) (int d) 0 0 0 0)
           else None
      else None)"

section \<open>Properties of the library functions\<close>

subsection \<open>strings.TrimSpace\<close>

lemmas eval_trim = TrimSpace_def trimRight_def asciiSpace_def space2_def space3_def

lemma ascii_not_lead:
  assumes "(of_char a :: nat) < 128"
  shows "a \<noteq> CHR 0xC2" "a \<noteq> CHR 0xE1" "a \<noteq> CHR 0xE2" "a \<noteq> CHR 0xE3"
        "\<not> space2 a" "\<not> space3 x y a"
  using assms by (auto simp: space2_def space3_def)

lemma trimLeft_keep:
  assumes "\<not> asciiSpace a" "(of_char a :: nat) < 128"
  shows "trimLeft (a # s) = a # s"
proof (cases s)
  case Nil
  then show ?thesis using assms by simp
next
  case (Cons b s')
  show ?thesis
  proof (cases s')
    case Nil
    then show ?thesis using assms Cons ascii_not_lead(1) [OF assms(2)] by simp
  next
    case (Cons c s'')
    then show ?thesis
      using assms \<open>s = b # s'\<close> ascii_not_lead(1-4) [OF assms(2)] by (simp add: space3_def)
  qed
qed

lemma trimLeftRev_keep:
  assumes "\<not> asciiSpace a" "(of_char a :: nat) < 128"
  shows "trimLeftRev (a # s) = a # s"
proof (cases s)
  case Nil
  then show ?thesis using assms by simp
next
  case (Cons b s')
  show ?thesis
  proof (cases s')
    case Nil
    then show ?thesis using assms Cons ascii_not_lead(5) [OF assms(2)] by simp
  next
    case (Cons c s'')
    then show ?thesis
      using assms \<open>s = b # s'\<close> ascii_not_lead(5,6) [OF assms(2)] by simp
  qed
qed

lemma trimLeftRev_space:
  assumes "asciiSpace a" "s \<noteq> []"
  shows "trimLeftRev (a # s) = trimLeftRev s"
proof (cases s)
  case Nil
  then show ?thesis using assms by simp
next
  case (Cons b s')
  then show ?thesis using assms by (cases s') simp_all
qed

lemma printable_plain:
  assumes "33 \<le> (of_char c :: nat)" "(of_char c :: nat) \<le> 126"
  shows "\<not> asciiSpace c" "(of_char c :: nat) < 128"
  using assms by (auto simp: asciiSpace_def)

lemma trimLeft_space:
  assumes "asciiSpace a" "s \<noteq> []"
  shows "trimLeft (a # s) = trimLeft s"
proof (cases s)
  case Nil
  then show ?thesis using assms by simp
next
  case (Cons b s')
  then show ?thesis using assms by (cases s') simp_all
qed

lemma trimLeft_padding:
  assumes "list_all asciiSpace ws" "\<not> asciiSpace a" "(of_char a :: nat) < 128"
  shows "trimLeft (ws @ a # s) = a # s"
  using assms
proof (induction ws)
  case Nil
  then show ?case by (simp add: trimLeft_keep)
next
  case (Cons w ws)
  then show ?case by (simp add: trimLeft_space)
qed

lemma trimLeftRev_padding:
  assumes "list_all asciiSpace ws" "\<not> asciiSpace a" "(of_char a :: nat) < 128"
  shows "trimLeftRev (ws @ a # s) = a # s"
  using assms
proof (induction ws)
  case Nil
  then show ?case by (simp add: trimLeftRev_keep)
next
  case (Cons w ws)
  then show ?case by (simp add: trimLeftRev_space)
qed

lemma TrimSpace_padded_true:
  assumes "list_all asciiSpace ws1" "list_all asciiSpace ws2"
  shows "TrimSpace (ws1 @ ''true'' @ ws2) = ''true''"
proof -
  have t: "\<not> asciiSpace CHR ''t''" "(of_char CHR ''t'' :: nat) < 128"
    and e: "\<not> asciiSpace CHR ''e''" "(of_char CHR ''e'' :: nat) < 128"
    by (simp_all add: asciiSpace_def)
  have l: "trimLeft (ws1 @ ''true'' @ ws2) = ''true'' @ ws2"
    using trimLeft_padding [OF assms(1) t, of "''rue'' @ ws2"] by simp
  have "rev (''true'' @ ws2) = rev ws2 @ CHR ''e'' # ''urt''" by simp
  moreover have "list_all asciiSpace (rev ws2)" using assms(2) by (simp add: list_all_iff)
  ultimately have "trimLeftRev (rev (''true'' @ ws2)) = ''eurt''"
    using trimLeftRev_padding [OF _ e, of "rev ws2" "''urt''"] by simp
  then have r: "trimRight (''true'' @ ws2) = ''true''" by (simp add: trimRight_def)
  show ?thesis unfolding TrimSpace_def l by (rule r)
qed

subsection \<open>Decimal digits\<close>

lemma digits_lt10: "n < 10 \<Longrightarrow> digits n = [''0123456789'' ! n]"
  by (simp add: digits.simps)

lemma digits_ge10: "10 \<le> n \<Longrightarrow> digits n = digits (n div 10) @ [''0123456789'' ! (n mod 10)]"
  by (subst digits.simps) simp

lemma digit_char:
  assumes "n < 10"
  shows "(of_char (''0123456789'' ! n) :: nat) = 48 + n"
proof -
  have "n \<in> {0, 1, 2, 3, 4, 5, 6, 7, 8, 9}"
    using assms by (simp; arith)
  then show ?thesis by (elim insertE emptyE; simp)
qed

lemma digits_nonempty: "digits n \<noteq> []"
  by (subst digits.simps) simp

lemma length_fixedDigits [simp]: "length (fixedDigits w n) = w"
  by (induction w arbitrary: n) simp_all

lemma fixedDigits_zero: "fixedDigits w 0 = replicate w CHR ''0''"
  by (induction w) (simp_all add: replicate_append_same)

lemma length_digits_le: "n < 10 ^ w \<Longrightarrow> 0 < w \<Longrightarrow> length (digits n) \<le> w"
proof (induction w arbitrary: n)
  case 0
  then show ?case by simp
next
  case (Suc w)
  show ?case
  proof (cases "n < 10")
    case True
    then show ?thesis by (simp add: digits_lt10)
  next
    case False
    then have w: "0 < w" using Suc.prems by (cases w) simp_all
    have "n div 10 < 10 ^ w" using Suc.prems by (simp add: less_mult_imp_div_less mult.commute)
    from Suc.IH [OF this w] False show ?thesis by (simp add: digits_ge10)
  qed
qed

lemma pad_digits:
  "n < 10 ^ w \<Longrightarrow> 0 < w \<Longrightarrow>
   replicate (w - length (digits n)) CHR ''0'' @ digits n = fixedDigits w n"
proof (induction w arbitrary: n)
  case 0
  then show ?case by simp
next
  case (Suc w)
  show ?case
  proof (cases "n < 10")
    case True
    then show ?thesis by (simp add: digits_lt10 fixedDigits_zero)
  next
    case False
    then have w: "0 < w" using Suc.prems by (cases w) simp_all
    have lt: "n div 10 < 10 ^ w" using Suc.prems by (simp add: less_mult_imp_div_less mult.commute)
    from Suc.IH [OF lt w] False length_digits_le [OF lt w]
    show ?thesis by (simp add: digits_ge10 Suc_diff_le)
  qed
qed

lemma appendInt_fixed:
  "0 \<le> x \<Longrightarrow> x < 10 ^ w \<Longrightarrow> 0 < w \<Longrightarrow> appendInt x w = fixedDigits w (nat x)"
proof -
  assume a: "0 \<le> x" "x < 10 ^ w" "0 < w"
  then have "nat x < 10 ^ w" by (simp add: nat_less_iff)
  from pad_digits [OF this a(3)] a(1) show ?thesis by (simp add: appendInt_def Let_def)
qed

lemma fixedDigits_isDigit: "c \<in> set (fixedDigits w n) \<Longrightarrow> isDigit c"
  by (induction w arbitrary: n) (auto simp: isDigit_def digit_char)

lemma readNat_snoc: "readNat (s @ [c]) = 10 * readNat s + (of_char c - 48)"
  by (simp add: readNat_def)

lemma readNat_fixedDigits: "n < 10 ^ w \<Longrightarrow> readNat (fixedDigits w n) = n"
proof (induction w arbitrary: n)
  case 0
  then show ?case by (simp add: readNat_def)
next
  case (Suc w)
  have "n div 10 < 10 ^ w" using Suc.prems by (simp add: less_mult_imp_div_less mult.commute)
  from Suc.IH [OF this] show ?case by (simp add: readNat_snoc digit_char)
qed

lemma digits_isDigit: "c \<in> set (digits n) \<Longrightarrow> isDigit c"
proof (induction n rule: digits.induct)
  case (1 n)
  show ?case
  proof (cases "n < 10")
    case True
    with "1.prems" show ?thesis by (simp add: digits_lt10 isDigit_def digit_char)
  next
    case False
    with "1.prems" "1.IH" show ?thesis by (auto simp: digits_ge10 isDigit_def digit_char)
  qed
qed

lemma readNat_digits: "readNat (digits n) = n"
proof (induction n rule: digits.induct)
  case (1 n)
  show ?case
  proof (cases "n < 10")
    case True
    then show ?thesis by (simp add: digits_lt10 readNat_def digit_char)
  next
    case False
    with "1.IH" show ?thesis by (simp add: digits_ge10 readNat_snoc digit_char)
  qed
qed

lemma length_digits_gt: "10 ^ w \<le> n \<Longrightarrow> w < length (digits n)"
proof (induction w arbitrary: n)
  case 0
  then show ?case using digits_nonempty [of n] by (cases "digits n") simp_all
next
  case (Suc w)
  have p: "10 * 10 ^ w \<le> n" using Suc.prems by simp
  have "(1::nat) \<le> 10 ^ w" by simp
  then have "(10::nat) * 1 \<le> 10 * 10 ^ w" by (intro mult_le_mono2)
  then have ge: "10 \<le> n" using p by linarith
  have "10 ^ w * 10 \<le> n" using Suc.prems by (simp add: mult.commute)
  then have "10 ^ w \<le> n div 10" by (simp add: less_eq_div_iff_mult_less_eq)
  from Suc.IH [OF this] ge show ?case by (simp add: digits_ge10)
qed

subsection \<open>The calendar\<close>

text \<open>
  The date that \<open>absDate\<close> reads off a count of seconds is a date of the calendar,
  and it is the date of that day: counting the days before its year, before its month
  and before its day of the month gives the day count back, for every count that fits
  64 bits.
\<close>

lemma int_div_eqI:
  fixes a b q :: int
  assumes "0 < b" "b * q \<le> a" "a < b * q + b"
  shows "a div b = q"
proof -
  have "a = b * q + (a - b * q)" by simp
  moreover have "0 \<le> a - b * q" "a - b * q < b" using assms by simp_all
  ultimately show ?thesis by (rule int_div_pos_eq)
qed

lemma cycle_step:
  fixes d :: int
  assumes "0 \<le> d" "d \<le> 4 * c" "0 < c"
  defines "q \<equiv> d div c"
  defines "n \<equiv> q - q div 4"
  shows "0 \<le> n \<and> n \<le> 3 \<and> 0 \<le> d - c * n \<and> d - c * n \<le> c \<and> (d - c * n = c \<longrightarrow> n = 3 \<and> d = 4 * c)"
proof -
  have q0: "0 \<le> q" unfolding q_def using assms by (simp add: pos_imp_zdiv_nonneg_iff)
  have "d div c \<le> (4 * c) div c" using assms by (intro zdiv_mono1) simp_all
  then have q4: "q \<le> 4" unfolding q_def using assms by simp
  have lo: "c * q \<le> d" unfolding q_def using assms
    by (metis mult.commute div_mult_self_is_m mult_div_mod_eq pos_mod_sign le_add_same_cancel1)
  have hi: "d < c * q + c" unfolding q_def using assms
    by (metis mult_div_mod_eq pos_mod_bound add_less_cancel_left)
  consider "q = 0" | "q = 1" | "q = 2" | "q = 3" | "q = 4" using q0 q4 by linarith
  then show ?thesis
  proof cases
    case 1 then show ?thesis using lo hi unfolding n_def by simp
  next
    case 2 then show ?thesis using lo hi unfolding n_def by simp
  next
    case 3 then show ?thesis using lo hi unfolding n_def by simp
  next
    case 4 then show ?thesis using lo hi unfolding n_def by simp
  next
    case 5 then show ?thesis using lo hi assms(2) unfolding n_def by simp
  qed
qed

lemma yearDay_sound:
  assumes "yearDay days = (y, yd)"
  shows "\<exists>n400 n100 n4 n1.
           y = 400 * n400 + 100 * n100 + 4 * n4 + n1 + absoluteZeroYear \<and>
           days = 146097 * n400 + 36524 * n100 + 1461 * n4 + 365 * n1 + yd \<and>
           n400 = days div 146097 \<and> 0 \<le> n100 \<and> n100 \<le> 3 \<and> 0 \<le> n4 \<and> n4 \<le> 24 \<and>
           0 \<le> n1 \<and> n1 \<le> 3 \<and> 0 \<le> yd \<and> yd < (if isLeap y then 366 else 365)"
proof -
  define n400 where "n400 = days div 146097"
  define d1 where "d1 = days - 146097 * n400"
  define c100 where "c100 = d1 div 36524"
  define n100 where "n100 = c100 - c100 div 4"
  define d2 where "d2 = d1 - 36524 * n100"
  define n4 where "n4 = d2 div 1461"
  define d3 where "d3 = d2 - 1461 * n4"
  define c1 where "c1 = d3 div 365"
  define n1 where "n1 = c1 - c1 div 4"
  define d4 where "d4 = d3 - 365 * n1"
  have res: "y = 400 * n400 + 100 * n100 + 4 * n4 + n1 + absoluteZeroYear" "yd = d4"
    using assms unfolding yearDay_def Let_def n400_def d1_def c100_def n100_def d2_def n4_def
      d3_def c1_def n1_def d4_def
    by simp_all
  have d1_mod: "d1 = days mod 146097"
    unfolding d1_def n400_def by (simp add: minus_mult_div_eq_mod)
  have r1: "0 \<le> d1" "d1 \<le> 4 * 36524" unfolding d1_mod by simp_all
  from cycle_step [OF r1(1) r1(2)]
  have s100: "0 \<le> n100" "n100 \<le> 3" "0 \<le> d2" "d2 \<le> 36524" "d2 = 36524 \<longrightarrow> n100 = 3"
    unfolding n100_def c100_def d2_def by simp_all
  have d3_mod: "d3 = d2 mod 1461"
    unfolding d3_def n4_def by (simp add: minus_mult_div_eq_mod)
  have r3: "0 \<le> d3" "d3 \<le> 4 * 365" unfolding d3_mod by simp_all
  have n4_lo: "0 \<le> n4" unfolding n4_def using s100(3) by (simp add: pos_imp_zdiv_nonneg_iff)
  have "d2 div 1461 \<le> 36524 div 1461" using s100(4) by (intro zdiv_mono1) simp_all
  then have n4_hi: "n4 \<le> 24" unfolding n4_def by simp
  have d2_eq: "d2 = 1461 * n4 + d3" unfolding d3_def by simp
  from cycle_step [OF r3(1) r3(2)]
  have s1: "0 \<le> n1" "n1 \<le> 3" "0 \<le> d4" "d4 \<le> 365" "d4 = 365 \<longrightarrow> n1 = 3 \<and> d3 = 1460"
    unfolding n1_def c1_def d4_def by simp_all
  have days_eq: "days = 146097 * n400 + 36524 * n100 + 1461 * n4 + 365 * n1 + d4"
    unfolding d4_def d3_def d2_def d1_def by simp
  have leap: "isLeap y" if "d4 = 365"
  proof -
    from that s1 have n1: "n1 = 3" and d3: "d3 = 1460" by simp_all
    have y4: "y = 4 * (100 * n400 + 25 * n100 + n4 + 1 - 73069255600)"
      unfolding res n1 absoluteZeroYear_def by simp
    have m4: "y mod 4 = 0" unfolding y4 by simp
    show ?thesis
    proof (cases "n4 = 24")
      case True
      then have "d2 = 36524" using d2_eq d3 by simp
      then have "n100 = 3" using s100 by simp
      then have "y = 400 * (n400 + 1 - 730692556)"
        unfolding res n1 True absoluteZeroYear_def by simp
      then have "y mod 400 = 0" by simp
      then show ?thesis using m4 by (simp add: isLeap_def)
    next
      case False
      then have n4: "n4 \<le> 23" using n4_hi by simp
      have "y = (4 * n4 + 4) + 100 * (4 * n400 + n100 - 2922770224)"
        unfolding res n1 absoluteZeroYear_def by simp
      then have "y mod 100 = (4 * n4 + 4) mod 100" by (simp only: mod_mult_self2)
      also have "\<dots> = 4 * n4 + 4" using n4 n4_lo by simp
      finally have "y mod 100 \<noteq> 0" using n4_lo by simp
      then show ?thesis using m4 by (simp add: isLeap_def)
    qed
  qed
  have "yd < (if isLeap y then 366 else 365)"
    using s1 leap unfolding res by (cases "d4 = 365") auto
  then show ?thesis
    using days_eq s1 s100 n4_lo n4_hi res n400_def by blast
qed

text \<open>
  \<open>daysSinceEpoch\<close> counts the days of the cycles that \<open>absDate\<close> took off, as long as
  the count fits 64 bits.
\<close>

lemma daysSinceEpoch_cycles:
  fixes n400 n100 n4 n1 :: int
  assumes "0 \<le> n400" "n400 < 2 ^ 31" "0 \<le> n100" "n100 \<le> 3" "0 \<le> n4" "n4 \<le> 24"
    "0 \<le> n1" "n1 \<le> 3"
  shows "daysSinceEpoch (400 * n400 + 100 * n100 + 4 * n4 + n1 + absoluteZeroYear)
         = 146097 * n400 + 36524 * n100 + 1461 * n4 + 365 * n1"
proof -
  define z where "z = 400 * n400 + 100 * n100 + 4 * n4 + n1"
  have b: "n400 < 2147483648" using assms(2) by simp
  have z0: "0 \<le> z" "z < 18446744073709551616" unfolding z_def using assms(1,3-8) b by simp_all
  have zm: "(400 * n400 + 100 * n100 + 4 * n4 + n1 + absoluteZeroYear - absoluteZeroYear) mod 2 ^ 64 = z"
    using z0 by (simp add: z_def)
  have q400: "z div 400 = n400"
    by (rule int_div_eqI) (use assms in \<open>simp_all add: z_def\<close>)
  have y1: "z - 400 * n400 = 100 * n100 + 4 * n4 + n1" by (simp add: z_def)
  have q100: "(100 * n100 + 4 * n4 + n1) div 100 = n100"
    by (rule int_div_eqI) (use assms in simp_all)
  have q4: "(4 * n4 + n1) div 4 = n4"
    by (rule int_div_eqI) (use assms in simp_all)
  have d0: "0 \<le> 146097 * n400 + 36524 * n100 + 1461 * n4 + 365 * n1"
    "146097 * n400 + 36524 * n100 + 1461 * n4 + 365 * n1 < 18446744073709551616"
    using assms(1,3-8) b by simp_all
  show ?thesis
    unfolding daysSinceEpoch_def Let_def zm q400 y1 q100 using q4 d0 by simp
qed

lemma monthDay_plain:
  fixes day :: int
  assumes "0 \<le> day" "day \<le> 364"
  defines "m \<equiv> nat (day div 31)"
  defines "e \<equiv> daysBefore ! (m + 1)"
  defines "r \<equiv> (if day \<ge> e then (int m + 2, day - e + 1) else (int m + 1, day - daysBefore ! m + 1))"
  shows "1 \<le> fst r \<and> fst r \<le> 12 \<and> 1 \<le> snd r
         \<and> snd r \<le> daysBefore ! nat (fst r) - daysBefore ! nat (fst r - 1)
         \<and> day = daysBefore ! nat (fst r - 1) + (snd r - 1)"
proof -
  define q where "q = day div 31"
  have q0: "0 \<le> q" unfolding q_def using assms by (simp add: pos_imp_zdiv_nonneg_iff)
  have "day div 31 \<le> 364 div 31" using assms by (intro zdiv_mono1) simp_all
  then have q11: "q \<le> 11" unfolding q_def by simp
  have lo: "31 * q \<le> day" unfolding q_def
    by (metis mult.commute mult_div_mod_eq pos_mod_sign le_add_same_cancel1 zero_less_numeral)
  have hi: "day < 31 * q + 31" unfolding q_def
    by (metis mult_div_mod_eq pos_mod_bound add_less_cancel_left zero_less_numeral)
  have qs: "q \<in> {0, 1, 2, 3, 4, 5, 6, 7, 8, 9, 10, 11}"
    using q0 q11 by (simp; arith)
  show ?thesis
    using qs lo hi assms(1,2) unfolding r_def e_def m_def q_def [symmetric]
    by (elim insertE emptyE; simp add: daysBefore_def)
qed

lemma monthDay_sound:
  assumes yd: "0 \<le> yd" "yd < (if isLeap y then 366 else 365)"
    and md: "monthDay y yd = (m, d)"
  shows "1 \<le> m \<and> m \<le> 12 \<and> 1 \<le> d \<and> d \<le> daysIn m y \<and>
         yd = daysBefore ! nat (m - 1) + (if isLeap y \<and> 3 \<le> m then 1 else 0) + (d - 1)"
proof (cases "isLeap y \<and> yd = 59")
  case True
  then have "m = 2" "d = 29" using md by (simp_all add: monthDay_def)
  then show ?thesis using True by (simp add: daysIn_def daysBefore_def)
next
  case False
  define day where "day = (if isLeap y \<and> yd > 59 then yd - 1 else yd)"
  have day: "0 \<le> day" "day \<le> 364" using yd False unfolding day_def by (auto split: if_splits)
  have md': "(m, d) = (if day \<ge> daysBefore ! (nat (day div 31) + 1)
                then (int (nat (day div 31)) + 2, day - daysBefore ! (nat (day div 31) + 1) + 1)
                else (int (nat (day div 31)) + 1, day - daysBefore ! nat (day div 31) + 1))"
    using md False unfolding monthDay_def day_def Let_def by (simp split: if_splits)
  from monthDay_plain [OF day] md' [symmetric]
  have F: "1 \<le> m" "m \<le> 12" "1 \<le> d" "d \<le> daysBefore ! nat m - daysBefore ! nat (m - 1)"
    "day = daysBefore ! nat (m - 1) + (d - 1)"
    by simp_all
  have ms: "m \<in> {1, 2, 3, 4, 5, 6, 7, 8, 9, 10, 11, 12}"
    using F(1,2) by (simp; arith)
  show ?thesis
    using ms F False yd unfolding day_def
    by (elim insertE emptyE; simp add: daysIn_def daysBefore_def split: if_splits)
qed

lemma absDate_sound:
  assumes "absDate a = (y, m, d)"
  shows "1 \<le> m \<and> m \<le> 12 \<and> 1 \<le> d \<and> d \<le> daysIn m y"
proof -
  obtain yd where yd: "yearDay (a div 86400) = (y, yd)" and md: "monthDay y yd = (m, d)"
    using assms unfolding absDate_def by (auto split: prod.splits)
  from yearDay_sound [OF yd]
  have r: "0 \<le> yd" "yd < (if isLeap y then 366 else 365)" by blast+
  from monthDay_sound [OF r md] show ?thesis by simp
qed

lemma absDate_days:
  assumes D: "absDate a = (y, m, d)" and a: "0 \<le> a" "a < 2 ^ 64"
  shows "daysSinceEpoch y + daysBefore ! nat (m - 1)
           + (if isLeap y \<and> 3 \<le> m then 1 else 0) + (d - 1) = a div 86400"
proof -
  obtain yd where yd: "yearDay (a div 86400) = (y, yd)" and md: "monthDay y yd = (m, d)"
    using D unfolding absDate_def by (auto split: prod.splits)
  from yearDay_sound [OF yd] obtain n400 n100 n4 n1 where
    y: "y = 400 * n400 + 100 * n100 + 4 * n4 + n1 + absoluteZeroYear" and
    days: "a div 86400 = 146097 * n400 + 36524 * n100 + 1461 * n4 + 365 * n1 + yd" and
    n400: "n400 = a div 86400 div 146097" and
    n: "0 \<le> n100" "n100 \<le> 3" "0 \<le> n4" "n4 \<le> 24" "0 \<le> n1" "n1 \<le> 3" and
    r: "0 \<le> yd" "yd < (if isLeap y then 366 else 365)"
    by blast
  have lo: "0 \<le> a div 86400" using a(1) by (simp add: pos_imp_zdiv_nonneg_iff)
  then have n0: "0 \<le> n400" unfolding n400 by (simp add: pos_imp_zdiv_nonneg_iff)
  have "a \<le> 18446744073709551615" using a(2) by simp
  then have "a div 86400 \<le> 18446744073709551615 div 86400" by (intro zdiv_mono1) simp_all
  then have "a div 86400 \<le> 213503982334601" by simp
  then have "a div 86400 div 146097 \<le> 213503982334601 div 146097"
    by (intro zdiv_mono1) simp_all
  then have n31: "n400 < 2 ^ 31" unfolding n400 by simp
  have dse: "daysSinceEpoch y = 146097 * n400 + 36524 * n100 + 1461 * n4 + 365 * n1"
    unfolding y by (rule daysSinceEpoch_cycles [OF n0 n31 n])
  from monthDay_sound [OF r md]
  have "yd = daysBefore ! nat (m - 1) + (if isLeap y \<and> 3 \<le> m then 1 else 0) + (d - 1)"
    by simp
  then show ?thesis using dse days by simp
qed

lemma Date_sound:
  "1 \<le> Month t \<and> Month t \<le> 12 \<and> 1 \<le> Day t \<and> Day t \<le> daysIn (Month t) (Year t)"
proof -
  obtain y m d where D: "absDate (abs_seconds t) = (y, m, d)"
    by (cases "absDate (abs_seconds t)") auto
  from absDate_sound [OF D] D show ?thesis
    by (simp add: Year_def Month_def Day_def Date_def)
qed

lemma daysIn_le_31:
  assumes "1 \<le> m" "m \<le> 12"
  shows "daysIn m y \<le> 31"
proof -
  have "m \<in> {1, 2, 3, 4, 5, 6, 7, 8, 9, 10, 11, 12}"
    using assms by (simp; arith)
  then show ?thesis by (elim insertE emptyE; simp add: daysIn_def daysBefore_def)
qed

text \<open>
  From the first second of \<open>absoluteZeroYear\<close> on, the count of seconds does not
  wrap around, and the date that \<open>Date\<close> reads is the date of the UTC day of the
  instant: \<open>time.Date\<close> of that date is the midnight at which the day starts.
\<close>

lemma unixToAbsolute: "unixToInternal + internalToAbsolute = 9223372028715321600"
  by (simp add: unixToInternal_def internalToAbsolute_def absoluteToInternal_def
      absoluteZeroYear_def)

lemma abs_seconds_exact:
  assumes "- 9223372028715321600 \<le> unixSec t" "unixSec t < 2 ^ 63"
  shows "abs_seconds t = unixSec t + 9223372028715321600"
  unfolding abs_seconds_def unixToAbsolute using assms by simp

lemma day_of_abs:
  fixes u :: int
  shows "(u + 9223372028715321600) div 86400 = u div 86400 + 106751991073094"
proof -
  have "u + 9223372028715321600 = u + 86400 * 106751991073094" by simp
  then show ?thesis by (simp only: div_mult_self2)
qed

lemma Date_day_start:
  assumes D: "Date t = (y, m, d)"
    and r: "- 9223372028715321600 \<le> unixSec t" "unixSec t < 2 ^ 63"
  shows "unixSec (time_Date y m d 0 0 0 0) = unixSec t div 86400 * 86400"
proof -
  define q where "q = unixSec t div 86400"
  have D': "absDate (unixSec t + 9223372028715321600) = (y, m, d)"
    using D by (simp add: Date_def abs_seconds_exact [OF r])
  have a0: "0 \<le> unixSec t + 9223372028715321600" "unixSec t + 9223372028715321600 < 2 ^ 64"
    using r by simp_all
  from absDate_days [OF D' a0]
  have dd: "daysSinceEpoch y + daysBefore ! nat (m - 1)
           + (if isLeap y \<and> 3 \<le> m then 1 else 0) + (d - 1) = q + 106751991073094"
    by (simp add: day_of_abs q_def)
  have lo: "q * 86400 \<le> unixSec t" unfolding q_def
    by (metis mult.commute mult_div_mod_eq pos_mod_sign le_add_same_cancel1 zero_less_numeral)
  have hi: "unixSec t < q * 86400 + 86400" unfolding q_def
    by (metis mult.commute mult_div_mod_eq pos_mod_bound add_less_cancel_left zero_less_numeral)
  have q0: "- 9223372028715321600 \<le> q * 86400"
  proof -
    have "(- 9223372028715321600) div 86400 \<le> unixSec t div 86400"
      using r(1) by (intro zdiv_mono1) simp_all
    then show ?thesis unfolding q_def by simp
  qed
  have a: "((q + 106751991073094) * 86400 + (0 * 3600 + 0 * 60 + 0)) mod 2 ^ 64
        = q * 86400 + 9223372028715321600"
    using q0 lo r(2) by (simp add: algebra_simps)
  have "unixSec (time_Date y m d 0 0 0 0)
        = (q * 86400 + 9223372028715321600 - 9223372028715321600 + 2 ^ 63) mod 2 ^ 64 - 2 ^ 63"
    unfolding time_Date_def Let_def dd unixToAbsolute a by simp
  also have "\<dots> = q * 86400" using q0 lo r(2) by simp
  finally show ?thesis by (simp add: q_def)
qed

lemma same_day_Date:
  assumes "- 9223372028715321600 \<le> unixSec t" "unixSec t < 2 ^ 63"
    and "- 9223372028715321600 \<le> unixSec t'" "unixSec t' < 2 ^ 63"
    and "unixSec t div 86400 = unixSec t' div 86400"
  shows "Date t = Date t'"
  unfolding Date_def absDate_def abs_seconds_exact [OF assms(1,2)]
    abs_seconds_exact [OF assms(3,4)] day_of_abs assms(5) ..

subsection \<open>time.Format\<close>

text \<open>
  The two layouts of the package, field by field. For evaluation on a given instant,
  \<open>Let_value_cong\<close> makes the simplifier compute each bound value before it is
  used.
\<close>

lemma Let_value_cong: "a = b \<Longrightarrow> Let a f = Let b f"
  by simp

lemma Format_stamp:
  "Format t ''20060102'' = appendInt (Year t) 4 @ appendInt (Month t) 2 @ appendInt (Day t) 2"
  by (simp add: Format_def)

lemma Format_iso:
  "Format t ''2006-01-02'' =
   appendInt (Year t) 4 @ ''-'' @ appendInt (Month t) 2 @ ''-'' @ appendInt (Day t) 2"
  by (simp add: Format_def)

lemmas eval_date = time_Date_def daysSinceEpoch_def daysBefore_def isLeap_def Date_def Year_def
  Month_def Day_def abs_seconds_def absDate_def unixToAbsolute absoluteZeroYear_def
  yearDay_def monthDay_def Let_def Format_stamp Format_iso appendInt_def digits_lt10 digits_ge10

lemma take_drop_3:
  "length a = 4 \<Longrightarrow> length b = 2 \<Longrightarrow>
   take 4 (a @ b @ c) = a \<and> take 2 (drop 4 (a @ b @ c)) = b \<and> drop 6 (a @ b @ c) = c"
  by simp

lemma same_day_Format:
  assumes "- 9223372028715321600 \<le> unixSec t" "unixSec t < 2 ^ 63"
    and "- 9223372028715321600 \<le> unixSec t'" "unixSec t' < 2 ^ 63"
    and "unixSec t div 86400 = unixSec t' div 86400"
  shows "Format t layout = Format t' layout"
proof -
  have "Date t = Date t'" by (rule same_day_Date [OF assms])
  then have "appendChunk t = appendChunk t'"
    by (intro ext) (rename_tac c, case_tac c, simp_all add: Year_def Month_def Day_def)
  then show ?thesis by (simp add: Format_def)
qed

lemma stamp_fields:
  assumes "0 \<le> Year t" "Year t \<le> 9999"
  shows "appendInt (Year t) 4 = fixedDigits 4 (nat (Year t))"
    and "appendInt (Month t) 2 = fixedDigits 2 (nat (Month t))"
    and "appendInt (Day t) 2 = fixedDigits 2 (nat (Day t))"
proof -
  from Date_sound [of t] daysIn_le_31 [of "Month t" "Year t"]
  have md: "1 \<le> Month t" "Month t \<le> 12" "1 \<le> Day t" "Day t \<le> 31" by auto
  show "appendInt (Year t) 4 = fixedDigits 4 (nat (Year t))"
    using assms by (intro appendInt_fixed) simp_all
  show "appendInt (Month t) 2 = fixedDigits 2 (nat (Month t))"
    using md by (intro appendInt_fixed) simp_all
  show "appendInt (Day t) 2 = fixedDigits 2 (nat (Day t))"
    using md by (intro appendInt_fixed) simp_all
qed

lemma stamp_fixed:
  assumes "0 \<le> Year t" "Year t \<le> 9999"
  shows "Format t ''20060102'' =
         fixedDigits 4 (nat (Year t)) @ fixedDigits 2 (nat (Month t)) @ fixedDigits 2 (nat (Day t))"
  using stamp_fields [OF assms] by (simp add: Format_stamp)

subsection \<open>Evaluating the examples\<close>

lemma t0_iso: "Format (time_Date 2024 1 15 23 59 0 0) ''2006-01-02'' = ''2024-01-15''"
  by (simp add: eval_date cong: Let_value_cong)

lemma t1_iso: "Format (time_Date 2024 1 16 0 1 0 0) ''2006-01-02'' = ''2024-01-16''"
  by (simp add: eval_date cong: Let_value_cong)

lemma read_0115: "sampleReadDate ''2024-01-15'' = Some \<lparr>unixSec = 1705276800, nsec = 0\<rparr>"
  by (simp add: sampleReadDate_def readNat_def isDigit_def daysIn_def eval_date cong: Let_value_cong)

lemma read_0116: "sampleReadDate ''2024-01-16'' = Some \<lparr>unixSec = 1705363200, nsec = 0\<rparr>"
  by (simp add: sampleReadDate_def readNat_def isDigit_def daysIn_def eval_date cong: Let_value_cong)

lemma stamp_0115: "DateStampOf \<lparr>unixSec = 1705276800, nsec = 0\<rparr> = ''20240115''"
  by (simp add: DateStampOf_def eval_date cong: Let_value_cong)

lemma stamp_0116: "DateStampOf \<lparr>unixSec = 1705363200, nsec = 0\<rparr> = ''20240116''"
  by (simp add: DateStampOf_def eval_date cong: Let_value_cong)

lemma hash_0115:
  "sampleHash ''testApiKey123'' ''20240115'' = Some ''746573744170694b65793132337c3230323430313135''"
  by (simp add: sampleHash_def hexEncode_def)

lemma hash_0116:
  "sampleHash ''testApiKey123'' ''20240116'' = Some ''746573744170694b65793132337c3230323430313136''"
  by (simp add: sampleHash_def hexEncode_def)

lemma trim_digest:
  "TrimSpace (println ''746573744170694b65793132337c3230323430313135'')
     = ''746573744170694b65793132337c3230323430313135''"
  by (simp add: println_def eval_trim)

lemma trim_false: "TrimSpace (println (formatBool False)) = ''false''"
  by (simp add: println_def formatBool_def eval_trim)

lemma trim_true: "TrimSpace (println (formatBool True)) = ''true''"
  by (simp add: println_def formatBool_def eval_trim)


section \<open>The claims\<close>

subsection \<open>GetDateString\<close>

text \<open>
  C7, as amended. For every instant, \<open>GetDateString\<close> writes the year, the month
  and the day that \<open>Date\<close> reads off the instant: the year in at least four digits,
  filled with zeros on the left and with a minus sign before a negative year, then two
  digits for the month and two for the day, which are a month and a day of the
  calendar. The result has eight characters exactly when the year is between 0 and
  9999, and then it is eight decimal digits, four that spell the year, two the month
  and two the day. For every instant from the first second of the year -292277022399
  on, which is the second -9223372028715321600 of Unix time (before it the library's
  count of seconds wraps around), that date is the UTC calendar date of the instant:
  its day (as \<open>time.Date\<close> counts it) starts at the last UTC midnight not after the
  instant; and two such instants of the same UTC day give the same result.
  \<open>GetDateString(2024-01-15T12:30:45Z) = "20240115"\<close>.
\<close>

theorem GetDateString_calendar_date:
  "fst (GetDateString t k) =
     (if Year t < 0 then ''-'' else []) @
     replicate (4 - length (digits (nat \<bar>Year t\<bar>))) CHR ''0'' @ digits (nat \<bar>Year t\<bar>) @
     fixedDigits 2 (nat (Month t)) @ fixedDigits 2 (nat (Day t)) \<and>
   int (readNat (digits (nat \<bar>Year t\<bar>))) = \<bar>Year t\<bar> \<and>
   1 \<le> Month t \<and> Month t \<le> 12 \<and> 1 \<le> Day t \<and> Day t \<le> daysIn (Month t) (Year t) \<and>
   (length (fst (GetDateString t k)) = 8) = (0 \<le> Year t \<and> Year t \<le> 9999) \<and>
   (0 \<le> Year t \<and> Year t \<le> 9999 \<longrightarrow>
      list_all isDigit (fst (GetDateString t k)) \<and>
      int (readNat (take 4 (fst (GetDateString t k)))) = Year t \<and>
      int (readNat (take 2 (drop 4 (fst (GetDateString t k))))) = Month t \<and>
      int (readNat (drop 6 (fst (GetDateString t k)))) = Day t) \<and>
   unixSec (time_Date absoluteZeroYear 1 1 0 0 0 0) = - 9223372028715321600 \<and>
   (- 9223372028715321600 \<le> unixSec t \<and> unixSec t < 2 ^ 63 \<longrightarrow>
      unixSec (time_Date (Year t) (Month t) (Day t) 0 0 0 0) = unixSec t div 86400 * 86400) \<and>
   (- 9223372028715321600 \<le> unixSec t \<and> unixSec t < 2 ^ 63 \<and>
    - 9223372028715321600 \<le> unixSec t' \<and> unixSec t' < 2 ^ 63 \<and>
    unixSec t div 86400 = unixSec t' div 86400 \<longrightarrow>
      fst (GetDateString t k) = fst (GetDateString t' k')) \<and>
   fst (GetDateString (time_Date 2024 1 15 12 30 45 0) k) = ''20240115''"
proof -
  define y m d where "y = Year t" and "m = Month t" and "d = Day t"
  have D: "Date t = (y, m, d)" by (simp add: y_def m_def d_def Year_def Month_def Day_def)
  from Date_sound [of t]
  have cal: "1 \<le> m" "m \<le> 12" "1 \<le> d" "d \<le> daysIn m y" by (simp_all add: y_def m_def d_def)
  have d31: "d \<le> 31" using cal daysIn_le_31 [of m y] by simp
  have fm: "appendInt m 2 = fixedDigits 2 (nat m)" using cal by (intro appendInt_fixed) simp_all
  have fd: "appendInt d 2 = fixedDigits 2 (nat d)" using cal d31 by (intro appendInt_fixed) simp_all
  have g: "fst (GetDateString t k) =
     (if y < 0 then ''-'' else []) @
     replicate (4 - length (digits (nat \<bar>y\<bar>))) CHR ''0'' @ digits (nat \<bar>y\<bar>) @
     fixedDigits 2 (nat m) @ fixedDigits 2 (nat d)"
    unfolding GetDateString_def Format_stamp y_def [symmetric] m_def [symmetric] d_def [symmetric]
      fm fd
    by (simp add: appendInt_def Let_def)
  have rd: "int (readNat (digits (nat \<bar>y\<bar>))) = \<bar>y\<bar>" by (simp add: readNat_digits)
  have len: "(length (fst (GetDateString t k)) = 8) = (0 \<le> y \<and> y \<le> 9999)"
  proof (cases "0 \<le> y \<and> y \<le> 9999")
    case True
    then have "nat \<bar>y\<bar> < 10 ^ 4" by (simp add: nat_less_iff)
    from length_digits_le [OF this] True show ?thesis unfolding g by simp
  next
    case False
    show ?thesis
    proof (cases "y < 0")
      case True
      then show ?thesis unfolding g by simp
    next
      case nonneg: False
      with False have "10 ^ 4 \<le> nat \<bar>y\<bar>" by (simp add: le_nat_iff)
      from length_digits_gt [OF this] False show ?thesis unfolding g by simp
    qed
  qed
  have digits8: "list_all isDigit (fst (GetDateString t k)) \<and>
      int (readNat (take 4 (fst (GetDateString t k)))) = y \<and>
      int (readNat (take 2 (drop 4 (fst (GetDateString t k))))) = m \<and>
      int (readNat (drop 6 (fst (GetDateString t k)))) = d"
    if yr: "0 \<le> y \<and> y \<le> 9999"
  proof -
    let ?a = "fixedDigits 4 (nat y)" and ?b = "fixedDigits 2 (nat m)" and ?c = "fixedDigits 2 (nat d)"
    have yr': "0 \<le> Year t" "Year t \<le> 9999" using yr by (simp_all add: y_def)
    have g4: "fst (GetDateString t k) = ?a @ ?b @ ?c"
      using stamp_fixed [OF yr'] by (simp add: GetDateString_def y_def m_def d_def)
    have parts: "take 4 (?a @ ?b @ ?c) = ?a \<and> take 2 (drop 4 (?a @ ?b @ ?c)) = ?b
        \<and> drop 6 (?a @ ?b @ ?c) = ?c"
      by (rule take_drop_3) simp_all
    have "nat y < 10 ^ 4" using yr by (simp add: nat_less_iff)
    then have ra: "readNat ?a = nat y" by (rule readNat_fixedDigits)
    have rb: "readNat ?b = nat m" using cal by (intro readNat_fixedDigits) simp
    have rc: "readNat ?c = nat d" using cal d31 by (intro readNat_fixedDigits) simp
    have dg: "list_all isDigit (?a @ ?b @ ?c)"
      by (auto simp: list_all_iff dest: fixedDigits_isDigit)
    show ?thesis
      unfolding g4 using parts ra rb rc dg yr cal by simp
  qed
  have zero: "unixSec (time_Date absoluteZeroYear 1 1 0 0 0 0) = - 9223372028715321600"
    by (simp add: eval_date cong: Let_value_cong)
  have start: "unixSec (time_Date y m d 0 0 0 0) = unixSec t div 86400 * 86400"
    if "- 9223372028715321600 \<le> unixSec t \<and> unixSec t < 2 ^ 63"
    using that by (intro Date_day_start [OF D]) simp_all
  have same: "fst (GetDateString t k) = fst (GetDateString t' k')"
    if "- 9223372028715321600 \<le> unixSec t \<and> unixSec t < 2 ^ 63 \<and>
        - 9223372028715321600 \<le> unixSec t' \<and> unixSec t' < 2 ^ 63 \<and>
        unixSec t div 86400 = unixSec t' div 86400"
    unfolding GetDateString_def fst_conv using that by (intro same_day_Format) simp_all
  have ex: "fst (GetDateString (time_Date 2024 1 15 12 30 45 0) k) = ''20240115''"
    by (simp add: GetDateString_def eval_date cong: Let_value_cong)
  show ?thesis
    unfolding y_def [symmetric] m_def [symmetric] d_def [symmetric]
    using g rd cal len digits8 zero start same ex by blast
qed

theorem GetDateString_calendar_date_witness:
  "0 \<le> Year (time_Date 2024 1 15 0 0 1 0) \<and> Year (time_Date 2024 1 15 0 0 1 0) \<le> 9999 \<and>
   - 9223372028715321600 \<le> unixSec (time_Date 2024 1 15 0 0 1 0) \<and>
   unixSec (time_Date 2024 1 15 0 0 1 0) < 2 ^ 63 \<and>
   - 9223372028715321600 \<le> unixSec (time_Date 2024 1 15 23 59 59 0) \<and>
   unixSec (time_Date 2024 1 15 23 59 59 0) < 2 ^ 63 \<and>
   unixSec (time_Date 2024 1 15 0 0 1 0) div 86400
     = unixSec (time_Date 2024 1 15 23 59 59 0) div 86400 \<and>
   length (fst (GetDateString (time_Date 2024 1 15 0 0 1 0) New)) = 8 \<and>
   list_all isDigit (fst (GetDateString (time_Date 2024 1 15 0 0 1 0) New)) \<and>
   unixSec (time_Date (Year (time_Date 2024 1 15 0 0 1 0)) (Month (time_Date 2024 1 15 0 0 1 0))
              (Day (time_Date 2024 1 15 0 0 1 0)) 0 0 0 0)
     = unixSec (time_Date 2024 1 15 0 0 1 0) div 86400 * 86400 \<and>
   fst (GetDateString (time_Date 2024 1 15 0 0 1 0) New)
     = fst (GetDateString (time_Date 2024 1 15 23 59 59 0) New) \<and>
   fst (GetDateString (time_Date 2024 1 15 23 59 59 0) New) = ''20240115''"
proof -
  have y: "0 \<le> Year (time_Date 2024 1 15 0 0 1 0) \<and> Year (time_Date 2024 1 15 0 0 1 0) \<le> 9999"
    by (simp add: eval_date cong: Let_value_cong)
  have r: "- 9223372028715321600 \<le> unixSec (time_Date 2024 1 15 0 0 1 0) \<and>
      unixSec (time_Date 2024 1 15 0 0 1 0) < 2 ^ 63"
    by (simp add: eval_date cong: Let_value_cong)
  have r': "- 9223372028715321600 \<le> unixSec (time_Date 2024 1 15 23 59 59 0) \<and>
      unixSec (time_Date 2024 1 15 23 59 59 0) < 2 ^ 63"
    by (simp add: eval_date cong: Let_value_cong)
  have sd: "unixSec (time_Date 2024 1 15 0 0 1 0) div 86400
     = unixSec (time_Date 2024 1 15 23 59 59 0) div 86400"
    by (simp add: eval_date cong: Let_value_cong)
  have v: "fst (GetDateString (time_Date 2024 1 15 23 59 59 0) New) = ''20240115''"
    by (simp add: GetDateString_def eval_date cong: Let_value_cong)
  note T = GetDateString_calendar_date
    [of "time_Date 2024 1 15 0 0 1 0" New "time_Date 2024 1 15 23 59 59 0" New]
  from T y r r' sd v show ?thesis by blast
qed

text \<open>
  Where the claim as it was written fails: at 10000-01-01T00:00:00Z the result has
  nine characters; at the least instant, \<open>time.Unix(math.MinInt64, 0)\<close>, the count
  of seconds wraps around and the result is a date of the year 292277026596; and
  there the first and the last second of one UTC day give different results.
\<close>

theorem GetDateString_counterexample:
  "fst (GetDateString (time_Date 10000 1 1 0 0 0 0) New) = ''100000101'' \<and>
   length (fst (GetDateString (time_Date 10000 1 1 0 0 0 0) New)) = 9 \<and>
   fst (GetDateString \<lparr>unixSec = - 9223372036854775808, nsec = 0\<rparr> New) = ''2922770265961204'' \<and>
   unixSec \<lparr>unixSec = - 9223372036854720000, nsec = 0\<rparr> div 86400
     = unixSec \<lparr>unixSec = - 9223372036854633601, nsec = 0\<rparr> div 86400 \<and>
   fst (GetDateString \<lparr>unixSec = - 9223372036854720000, nsec = 0\<rparr> New) = ''2922770265961205'' \<and>
   fst (GetDateString \<lparr>unixSec = - 9223372036854633601, nsec = 0\<rparr> New) = ''2922770265961206''"
  by (simp add: GetDateString_def eval_date cong: Let_value_cong)

text \<open>
  C4, as amended. The date string that \<open>EncryptApiKeyWithDate\<close> and \<open>ValidateApiKey\<close>
  derive from the instant and pass to the binary is the same in both: the UTC date in
  layout \<open>2006-01-02\<close>, that is year, month and day as \<open>GetDateString\<close> writes them,
  separated by \<open>-\<close>. For a year between 0 and 9999 it has ten characters,
  \<open>YYYY-MM-DD\<close>; it is not the eight-digit string of \<open>GetDateString\<close>.
\<close>

theorem date_argument_layout:
  "EncryptApiKeyWithDate run apiKey t k =
     (case run (binaryPath k) [''encrypt-date'', apiKey, Format t ''2006-01-02''] of
        Inl err \<Rightarrow> (Inl (Errorf ''failed to encrypt API key with date'' err), k)
      | Inr out \<Rightarrow> (Inr (TrimSpace out), k)) \<and>
   ValidateApiKey run apiKey encryptedKey t k =
     (case run (binaryPath k) [''validate-date'', apiKey, encryptedKey, Format t ''2006-01-02''] of
        Inl err \<Rightarrow> (Inl (Errorf ''failed to validate API key'' err), k)
      | Inr out \<Rightarrow> (Inr (TrimSpace out = ''true''), k)) \<and>
   Format t ''2006-01-02'' =
     appendInt (Year t) 4 @ ''-'' @ appendInt (Month t) 2 @ ''-'' @ appendInt (Day t) 2 \<and>
   fst (GetDateString t k) = appendInt (Year t) 4 @ appendInt (Month t) 2 @ appendInt (Day t) 2 \<and>
   (0 \<le> Year t \<and> Year t \<le> 9999 \<longrightarrow>
      length (Format t ''2006-01-02'') = 10 \<and>
      Format t ''2006-01-02'' =
        take 4 (fst (GetDateString t k)) @ ''-'' @ take 2 (drop 4 (fst (GetDateString t k)))
          @ ''-'' @ drop 6 (fst (GetDateString t k)))"
proof -
  have dashed: "length (Format t ''2006-01-02'') = 10 \<and>
      Format t ''2006-01-02'' =
        take 4 (fst (GetDateString t k)) @ ''-'' @ take 2 (drop 4 (fst (GetDateString t k)))
          @ ''-'' @ drop 6 (fst (GetDateString t k))"
    if yr: "0 \<le> Year t" "Year t \<le> 9999"
  proof -
    let ?a = "fixedDigits 4 (nat (Year t))" and ?b = "fixedDigits 2 (nat (Month t))"
      and ?c = "fixedDigits 2 (nat (Day t))"
    have g: "fst (GetDateString t k) = ?a @ ?b @ ?c"
      using stamp_fixed [OF yr] by (simp add: GetDateString_def)
    have parts: "take 4 (?a @ ?b @ ?c) = ?a \<and> take 2 (drop 4 (?a @ ?b @ ?c)) = ?b
        \<and> drop 6 (?a @ ?b @ ?c) = ?c"
      by (rule take_drop_3) simp_all
    have f: "appendInt (Year t) 4 = ?a \<and> appendInt (Month t) 2 = ?b \<and> appendInt (Day t) 2 = ?c"
      using stamp_fields [OF yr] by simp
    show ?thesis unfolding g using parts f by (simp add: Format_iso)
  qed
  have e1: "EncryptApiKeyWithDate run apiKey t k =
     (case run (binaryPath k) [''encrypt-date'', apiKey, Format t ''2006-01-02''] of
        Inl err \<Rightarrow> (Inl (Errorf ''failed to encrypt API key with date'' err), k)
      | Inr out \<Rightarrow> (Inr (TrimSpace out), k))"
    by (simp add: EncryptApiKeyWithDate_def)
  have e2: "ValidateApiKey run apiKey encryptedKey t k =
     (case run (binaryPath k) [''validate-date'', apiKey, encryptedKey, Format t ''2006-01-02''] of
        Inl err \<Rightarrow> (Inl (Errorf ''failed to validate API key'' err), k)
      | Inr out \<Rightarrow> (Inr (TrimSpace out = ''true''), k))"
    by (simp add: ValidateApiKey_def)
  have e3: "fst (GetDateString t k)
      = appendInt (Year t) 4 @ appendInt (Month t) 2 @ appendInt (Day t) 2"
    by (simp add: GetDateString_def Format_stamp)
  from e1 e2 Format_iso [of t] e3 dashed show ?thesis by blast
qed

theorem date_argument_layout_witness:
  "0 \<le> Year (time_Date 2024 1 15 12 30 45 0) \<and> Year (time_Date 2024 1 15 12 30 45 0) \<le> 9999 \<and>
   length (Format (time_Date 2024 1 15 12 30 45 0) ''2006-01-02'') = 10 \<and>
   Format (time_Date 2024 1 15 12 30 45 0) ''2006-01-02'' =
     take 4 (fst (GetDateString (time_Date 2024 1 15 12 30 45 0) New)) @ ''-'' @
     take 2 (drop 4 (fst (GetDateString (time_Date 2024 1 15 12 30 45 0) New))) @ ''-'' @
     drop 6 (fst (GetDateString (time_Date 2024 1 15 12 30 45 0) New)) \<and>
   Format (time_Date 2024 1 15 12 30 45 0) ''2006-01-02'' = ''2024-01-15''"
proof -
  have y: "Year (time_Date 2024 1 15 12 30 45 0) = 2024"
    by (simp add: eval_date cong: Let_value_cong)
  have f: "Format (time_Date 2024 1 15 12 30 45 0) ''2006-01-02'' = ''2024-01-15''"
    by (simp add: eval_date cong: Let_value_cong)
  have yr: "0 \<le> Year (time_Date 2024 1 15 12 30 45 0) \<and> Year (time_Date 2024 1 15 12 30 45 0) \<le> 9999"
    using y by simp
  note imp = date_argument_layout [where t = "time_Date 2024 1 15 12 30 45 0" and k = New,
      THEN conjunct2, THEN conjunct2, THEN conjunct2, THEN conjunct2]
  from mp [OF imp yr] yr f show ?thesis by blast
qed

theorem date_argument_counterexample:
  "fst (EncryptApiKeyWithDate (\<lambda>name args. Inr (last args)) ''testApiKey123''
          (time_Date 2024 1 15 12 30 45 0) New) = Inr ''2024-01-15'' \<and>
   fst (ValidateApiKey
          (\<lambda>name args. Inr (if last args = ''2024-01-15'' then ''true'' else ''false''))
          ''testApiKey123'' ''abc'' (time_Date 2024 1 15 12 30 45 0) New) = Inr True \<and>
   fst (ValidateApiKey
          (\<lambda>name args. Inr (if last args = ''20240115'' then ''true'' else ''false''))
          ''testApiKey123'' ''abc'' (time_Date 2024 1 15 12 30 45 0) New) = Inr False \<and>
   fst (GetDateString (time_Date 2024 1 15 12 30 45 0) New) = ''20240115''"
proof -
  have f: "Format (time_Date 2024 1 15 12 30 45 0) ''2006-01-02'' = ''2024-01-15''"
    by (simp add: eval_date cong: Let_value_cong)
  have g: "Format (time_Date 2024 1 15 12 30 45 0) ''20060102'' = ''20240115''"
    by (simp add: eval_date cong: Let_value_cong)
  have tr: "TrimSpace ''2024-01-15'' = ''2024-01-15''" "TrimSpace ''true'' = ''true''"
    "TrimSpace ''false'' = ''false''"
    by (simp_all add: eval_trim)
  show ?thesis
    by (simp add: EncryptApiKeyWithDate_def ValidateApiKey_def GetDateString_def f g tr)
qed

subsection \<open>The wrapper's validation\<close>

text \<open>
  C3. \<open>ValidateApiKeyWithTolerance\<close> returns exactly what \<open>ValidateApiKey\<close> returns for
  the same key, digest and instant (truth value, error and helper), whatever
  \<open>toleranceMinutes\<close> is.
\<close>

theorem ValidateApiKeyWithTolerance_falls_back:
  "ValidateApiKeyWithTolerance run apiKey encryptedKey t toleranceMinutes k =
   ValidateApiKey run apiKey encryptedKey t k"
  by (simp add: ValidateApiKeyWithTolerance_def)

text \<open>
  C2, as amended. For every key and every digest, in particular the digest produced
  by encrypting at 2024-01-15T23:59:00Z, validation at 2024-01-16T00:01:00Z with
  \<open>toleranceMinutes = 5\<close> gives the same result as with \<open>toleranceMinutes = 0\<close>: the
  wrapper asks the binary about the date 2024-01-16 only and does not pass the
  tolerance on. So it is never the case that the first returns true and the second
  false.
\<close>

theorem tolerance_not_forwarded:
  "ValidateApiKeyWithTolerance run apiKey digest (time_Date 2024 1 16 0 1 0 0) 5 k =
     ValidateApiKeyWithTolerance run apiKey digest (time_Date 2024 1 16 0 1 0 0) 0 k \<and>
   fst (ValidateApiKeyWithTolerance run apiKey digest (time_Date 2024 1 16 0 1 0 0) 5 k) =
     (case run (binaryPath k) [''validate-date'', apiKey, digest, ''2024-01-16''] of
        Inl err \<Rightarrow> Inl (Errorf ''failed to validate API key'' err)
      | Inr out \<Rightarrow> Inr (TrimSpace out = ''true'')) \<and>
   \<not> (fst (ValidateApiKeyWithTolerance run apiKey digest (time_Date 2024 1 16 0 1 0 0) 5 k)
          = Inr True \<and>
      fst (ValidateApiKeyWithTolerance run apiKey digest (time_Date 2024 1 16 0 1 0 0) 0 k)
          = Inr False)"
  by (simp add: ValidateApiKeyWithTolerance_def ValidateApiKey_def t1_iso split: sum.splits)

text \<open>
  An instance, with a binary that is exact about the date (it answers
  \<open>encrypt-date\<close> with the key, a bar and the date, and \<open>validate-date\<close> with
  whether the digest is that text): the digest of 2024-01-15T23:59:00Z is accepted at
  that instant and rejected at 2024-01-16T00:01:00Z, with tolerance 0 and with
  tolerance 5 alike.
\<close>

theorem tolerance_bridge_counterexample:
  "(let E = (\<lambda>name args.
               if take 1 args = [''encrypt-date'']
               then Inr (args ! 1 @ ''|'' @ args ! 2 @ ''\<newline>'')
               else Inr (if args ! 2 = args ! 1 @ ''|'' @ args ! 3
                         then ''true\<newline>'' else ''false\<newline>''))
    in fst (EncryptApiKeyWithDate E ''testApiKey123'' (time_Date 2024 1 15 23 59 0 0) New)
         = Inr ''testApiKey123|2024-01-15'' \<and>
       fst (ValidateApiKeyWithTolerance E ''testApiKey123'' ''testApiKey123|2024-01-15''
              (time_Date 2024 1 15 23 59 0 0) 0 New) = Inr True \<and>
       fst (ValidateApiKeyWithTolerance E ''testApiKey123'' ''testApiKey123|2024-01-15''
              (time_Date 2024 1 16 0 1 0 0) 0 New) = Inr False \<and>
       fst (ValidateApiKeyWithTolerance E ''testApiKey123'' ''testApiKey123|2024-01-15''
              (time_Date 2024 1 16 0 1 0 0) 5 New) = Inr False)"
proof -
  have tr: "TrimSpace ''testApiKey123|2024-01-15\<newline>'' = ''testApiKey123|2024-01-15''"
    "TrimSpace ''true\<newline>'' = ''true''" "TrimSpace ''false\<newline>'' = ''false''"
    by (simp_all add: eval_trim)
  show ?thesis
    by (simp add: Let_def EncryptApiKeyWithDate_def ValidateApiKeyWithTolerance_def
        ValidateApiKey_def t0_iso t1_iso tr)
qed

text \<open>
  C10. Each validate operation returns true if and only if the standard output of
  the binary, with leading and trailing white space removed, is exactly \<open>true\<close>;
  any other output gives false, without an error, provided that the run of the binary
  succeeded. In particular \<open>true\<close> with spaces, tabs or line ends around it gives
  true.
\<close>

theorem validate_result_parsing:
  "(run (binaryPath k) [''validate-date'', apiKey, encryptedKey, Format t ''2006-01-02''] = Inr out
      \<longrightarrow> fst (ValidateApiKey run apiKey encryptedKey t k) = Inr (TrimSpace out = ''true'')) \<and>
   (run (binaryPath k) [''validate'', apiKey, encryptedKey] = Inr out
      \<longrightarrow> fst (ValidateApiKeyToday run apiKey encryptedKey k) = Inr (TrimSpace out = ''true'')) \<and>
   (run (binaryPath k) [''validate-tolerance'', apiKey, encryptedKey, Itoa tol] = Inr out
      \<longrightarrow> fst (ValidateApiKeyTodayWithTolerance run apiKey encryptedKey tol k)
            = Inr (TrimSpace out = ''true'')) \<and>
   (list_all asciiSpace ws1 \<and> list_all asciiSpace ws2
      \<longrightarrow> TrimSpace (ws1 @ ''true'' @ ws2) = ''true'')"
  using TrimSpace_padded_true [of ws1 ws2]
  by (simp add: ValidateApiKey_def ValidateApiKeyToday_def ValidateApiKeyTodayWithTolerance_def)

theorem validate_result_parsing_witness:
  "fst (ValidateApiKey (\<lambda>name args. Inr '' true\<newline>'') ''testApiKey123'' ''abc''
          (time_Date 2024 1 15 12 30 0 0) New) = Inr True \<and>
   fst (ValidateApiKeyToday (\<lambda>name args. Inr '' true\<newline>'') ''testApiKey123'' ''abc'' New)
     = Inr True \<and>
   fst (ValidateApiKeyTodayWithTolerance (\<lambda>name args. Inr '' true\<newline>'')
          ''testApiKey123'' ''abc'' 5 New) = Inr True \<and>
   fst (ValidateApiKeyToday (\<lambda>name args. Inr ''TRUE\<newline>'') ''testApiKey123'' ''abc'' New)
     = Inr False \<and>
   fst (ValidateApiKeyToday (\<lambda>name args. Inr ''false\<newline>'') ''testApiKey123'' ''abc'' New)
     = Inr False \<and>
   fst (ValidateApiKeyToday (\<lambda>name args. Inr ''true or false'') ''testApiKey123'' ''abc'' New)
     = Inr False"
proof -
  have a: "TrimSpace '' true\<newline>'' = ''true''" by (simp add: eval_trim)
  have b: "TrimSpace ''TRUE\<newline>'' = ''TRUE''" by (simp add: eval_trim)
  have c: "TrimSpace ''false\<newline>'' = ''false''" by (simp add: eval_trim)
  have d: "TrimSpace ''true or false'' = ''true or false''" by (simp add: eval_trim)
  from validate_result_parsing
         [of "\<lambda>name args. Inr '' true\<newline>''" New "''testApiKey123''" "''abc''"
             "time_Date 2024 1 15 12 30 0 0" "'' true\<newline>''" 5]
       validate_result_parsing
         [of "\<lambda>name args. Inr ''TRUE\<newline>''" New "''testApiKey123''" "''abc''"
             "time_Date 2024 1 15 12 30 0 0" "''TRUE\<newline>''" 5]
       validate_result_parsing
         [of "\<lambda>name args. Inr ''false\<newline>''" New "''testApiKey123''" "''abc''"
             "time_Date 2024 1 15 12 30 0 0" "''false\<newline>''" 5]
       validate_result_parsing
         [of "\<lambda>name args. Inr ''true or false''" New "''testApiKey123''" "''abc''"
             "time_Date 2024 1 15 12 30 0 0" "''true or false''" 5]
  show ?thesis by (simp add: a b c d)
qed

subsection \<open>The helper\<close>


section \<open>The wrapper with the binary of the spec\<close>

text \<open>
  The claims of this section are about what encryption and validation answer. That
  is decided by the binary, so they are stated for the wrapper run against the binary
  modelled from the spec, for every keyed hash \<open>H\<close>, every reading \<open>readDate\<close> of
  the date argument and every instant \<open>now\<close> at which the binary runs.
\<close>

subsection \<open>What the wrapper reads from the binary's output\<close>

lemma TrimSpace_println:
  assumes "digestText d"
  shows "TrimSpace (println d) = d"
proof -
  from assms obtain a s where d: "d = a # s" by (cases d) (auto simp: digestText_def)
  from assms have ne: "d \<noteq> []" and
    pr: "\<And>c. c \<in> set d \<Longrightarrow> 33 \<le> (of_char c :: nat) \<and> (of_char c :: nat) \<le> 126"
    by (auto simp: digestText_def list_all_iff)
  have a: "\<not> asciiSpace a" "(of_char a :: nat) < 128"
    using pr [of a] printable_plain [of a] d by simp_all
  have left: "trimLeft (println d) = println d"
    unfolding println_def d using trimLeft_keep [OF a] by simp
  obtain z r where rv: "rev d = z # r" using ne by (cases "rev d") auto
  have "z \<in> set d" using rv by (metis list.set_intros(1) set_rev)
  then have z: "\<not> asciiSpace z" "(of_char z :: nat) < 128"
    using pr [of z] printable_plain [of z] by simp_all
  have "trimLeftRev (rev (println d)) = trimLeftRev (rev d)"
    unfolding println_def using trimLeftRev_space [of "CHR 0x0A" "rev d"] ne
    by (simp add: asciiSpace_def)
  also have "\<dots> = rev d" unfolding rv by (rule trimLeftRev_keep [OF z])
  finally have "trimRight (println d) = d" by (simp add: trimRight_def)
  then show ?thesis by (simp add: TrimSpace_def left)
qed

lemma formatBool_true: "(formatBool b = ''true'') = b"
  by (simp add: formatBool_def)

lemma TrimSpace_println_bool: "(TrimSpace (println (formatBool b)) = ''true'') = b"
  by (cases b) (simp_all add: trim_true trim_false)

lemma digits_head:
  "\<exists>c s. digits n = c # s \<and> isDigit c"
  using digits_nonempty [of n] digits_isDigit [of _ n]
  by (cases "digits n") auto

lemma isDigit_not_sign: "isDigit c \<Longrightarrow> c \<noteq> CHR ''-'' \<and> c \<noteq> CHR ''+''"
  by (auto simp: isDigit_def)

lemma Atoi_Itoa: "Atoi (Itoa x) = Some x"
proof -
  obtain c s where ds: "digits (nat \<bar>x\<bar>) = c # s" and c: "isDigit c"
    using digits_head by blast
  have all: "list_all isDigit (digits (nat \<bar>x\<bar>))"
    by (simp add: list_all_iff digits_isDigit)
  have rd: "readNat (digits (nat \<bar>x\<bar>)) = nat \<bar>x\<bar>" by (rule readNat_digits)
  show ?thesis
  proof (cases "x < 0")
    case True
    then show ?thesis
      using all rd digits_nonempty [of "nat \<bar>x\<bar>"] by (simp add: Atoi_def Itoa_def Let_def)
  next
    case False
    have "take 1 (digits (nat \<bar>x\<bar>)) = [c]" by (simp add: ds)
    then show ?thesis
      using False all rd isDigit_not_sign [OF c] digits_nonempty [of "nat \<bar>x\<bar>"]
      by (simp add: Atoi_def Itoa_def Let_def)
  qed
qed

lemma hex_char:
  assumes "n < 16"
  shows "33 \<le> (of_char (''0123456789abcdef'' ! n) :: nat) \<and>
         (of_char (''0123456789abcdef'' ! n) :: nat) \<le> 126"
proof -
  have "n \<in> {0, 1, 2, 3, 4, 5, 6, 7, 8, 9, 10, 11, 12, 13, 14, 15}"
    using assms by (simp; arith)
  then show ?thesis by (elim insertE emptyE; simp)
qed

lemma hexEncode_chars:
  "c \<in> set (hexEncode s) \<Longrightarrow> 33 \<le> (of_char c :: nat) \<and> (of_char c :: nat) \<le> 126"
proof -
  have lt: "(of_char x :: nat) div 16 < 16" for x :: char
    by (rule less_mult_imp_div_less) simp
  show "c \<in> set (hexEncode s) \<Longrightarrow> 33 \<le> (of_char c :: nat) \<and> (of_char c :: nat) \<le> 126"
    unfolding hexEncode_def using hex_char lt by (induction s) auto
qed

lemma hexEncode_text:
  assumes "s \<noteq> []"
  shows "digestText (hexEncode s)"
proof -
  from assms obtain a r where s: "s = a # r" by (cases s) auto
  have ne: "hexEncode s \<noteq> []" by (simp add: s hexEncode_def)
  show ?thesis
    unfolding digestText_def list_all_iff using ne hexEncode_chars [of _ s] by blast
qed

lemma sampleHash_text: "sampleHash apiKey stamp = Some d \<Longrightarrow> digestText d"
  using hexEncode_text [of "apiKey @ ''|'' @ stamp"] by (auto simp: sampleHash_def)

text \<open>
  The DateStamp of the spec depends on the UTC day of the instant only, and it is
  what \<open>Format\<close> writes with layout \<open>20060102\<close> for every instant whose count of
  seconds does not wrap around.
\<close>

lemma same_day_stamp:
  "unixSec t div 86400 = unixSec t' div 86400 \<Longrightarrow> DateStampOf t = DateStampOf t'"
  by (simp add: DateStampOf_def absDate_def unixToAbsolute day_of_abs)

lemma stamp_Format:
  assumes "- 9223372028715321600 \<le> unixSec t" "unixSec t < 2 ^ 63"
  shows "DateStampOf t = Format t ''20060102''"
  by (simp add: DateStampOf_def Format_stamp Year_def Month_def Day_def Date_def
      abs_seconds_exact [OF assms] unixToAbsolute split: prod.splits)

lemma Validate_exact:
  "Validate H apiKey encryptedKey t 0 =
     (if apiKey = [] \<or> encryptedKey = [] then Inl InvalidInput
      else case H apiKey (DateStampOf t) of
             None \<Rightarrow> Inl HashFailure
           | Some dg \<Rightarrow> Inr (encryptedKey = dg))"
  by (auto simp: Validate_def candidates_def split: option.splits)

lemma Validate_window:
  assumes "\<forall>c\<in>set (candidates t tol). H apiKey (DateStampOf c) \<noteq> None"
  shows "Validate H apiKey encryptedKey t tol =
     (if apiKey = [] \<or> encryptedKey = [] \<or> tol < 0 then Inl InvalidInput
      else Inr (\<exists>c\<in>set (candidates t tol). H apiKey (DateStampOf c) = Some encryptedKey))"
proof -
  have n: "None \<notin> set (map (H apiKey) (remdups (map DateStampOf (candidates t tol))))"
    using assms by (auto simp: image_iff)
  have s: "(Some encryptedKey \<in> set (map (H apiKey) (remdups (map DateStampOf (candidates t tol)))))
      = (\<exists>c\<in>set (candidates t tol). H apiKey (DateStampOf c) = Some encryptedKey)"
    by (force simp: image_iff)
  show ?thesis unfolding Validate_def Let_def using n s by simp
qed

lemma EncryptApiKey_binary:
  "fst (EncryptApiKey (installed (keyrotation_binary H readDate now)) apiKey k) =
     (case Encrypt H apiKey now of
        Inl e \<Rightarrow> Inl (Error ''failed to encrypt API key: exit status 1'')
      | Inr d \<Rightarrow> Inr (TrimSpace (println d)))"
  by (simp add: EncryptApiKey_def installed_def keyrotation_binary_def split: sum.splits)

lemma EncryptApiKeyWithDate_binary:
  "fst (EncryptApiKeyWithDate (installed (keyrotation_binary H readDate now)) apiKey t k) =
     (case readDate (Format t ''2006-01-02'') of
        None \<Rightarrow> Inl (Error ''failed to encrypt API key with date: exit status 1'')
      | Some t' \<Rightarrow>
          (case Encrypt H apiKey t' of
             Inl e \<Rightarrow> Inl (Error ''failed to encrypt API key with date: exit status 1'')
           | Inr d \<Rightarrow> Inr (TrimSpace (println d))))"
  by (simp add: EncryptApiKeyWithDate_def installed_def keyrotation_binary_def
      split: sum.splits option.splits)

lemma ValidateApiKey_binary:
  "fst (ValidateApiKey (installed (keyrotation_binary H readDate now)) apiKey encryptedKey t k) =
     (case readDate (Format t ''2006-01-02'') of
        None \<Rightarrow> Inl (Error ''failed to validate API key: exit status 1'')
      | Some t' \<Rightarrow>
          (case Validate H apiKey encryptedKey t' 0 of
             Inl e \<Rightarrow> Inl (Error ''failed to validate API key: exit status 1'')
           | Inr b \<Rightarrow> Inr b))"
  by (simp add: ValidateApiKey_def installed_def keyrotation_binary_def TrimSpace_println_bool
      split: sum.splits option.splits)

lemma ValidateApiKeyToday_binary:
  "fst (ValidateApiKeyToday (installed (keyrotation_binary H readDate now)) apiKey encryptedKey k) =
     (case Validate H apiKey encryptedKey now 0 of
        Inl e \<Rightarrow> Inl (Error ''failed to validate API key for today: exit status 1'')
      | Inr b \<Rightarrow> Inr b)"
  by (simp add: ValidateApiKeyToday_def installed_def keyrotation_binary_def
      TrimSpace_println_bool split: sum.splits)

lemma ValidateApiKeyTodayWithTolerance_binary:
  "fst (ValidateApiKeyTodayWithTolerance (installed (keyrotation_binary H readDate now))
          apiKey encryptedKey tol k) =
     (case Validate H apiKey encryptedKey now tol of
        Inl e \<Rightarrow> Inl (Error ''failed to validate API key with tolerance: exit status 1'')
      | Inr b \<Rightarrow> Inr b)"
  by (simp add: ValidateApiKeyTodayWithTolerance_def installed_def keyrotation_binary_def
      Atoi_Itoa TrimSpace_println_bool split: sum.splits)

text \<open>
  The tolerance scenario of the spec, run through the wrapper against the concrete
  binary: the digest of 2024-01-15T23:59:00Z is rejected at 2024-01-16T00:01:00Z
  although the tolerance is 5 minutes.
\<close>

lemma tolerance_bridge_spec_binary:
  "fst (EncryptApiKeyWithDate
          (installed (keyrotation_binary sampleHash sampleReadDate (time_Date 2024 1 15 23 59 0 0)))
          ''testApiKey123'' (time_Date 2024 1 15 23 59 0 0) New)
     = Inr ''746573744170694b65793132337c3230323430313135'' \<and>
   fst (ValidateApiKeyWithTolerance
          (installed (keyrotation_binary sampleHash sampleReadDate (time_Date 2024 1 16 0 1 0 0)))
          ''testApiKey123'' ''746573744170694b65793132337c3230323430313135''
          (time_Date 2024 1 16 0 1 0 0) 5 New)
     = Inr False"
  by (simp add: EncryptApiKeyWithDate_def ValidateApiKeyWithTolerance_def ValidateApiKey_def
      installed_def keyrotation_binary_def Encrypt_def Validate_def candidates_def
      t0_iso t1_iso read_0115 read_0116 stamp_0115 stamp_0116 hash_0115 hash_0116
      trim_digest trim_false)

text \<open>
  The wrapper removes white space around what the binary prints. A digest that ends
  with a space would come back from \<open>EncryptApiKeyWithDate\<close> without it and then not
  validate; the digest of the spec, hex or base64, has no white space.
\<close>

lemma trimmed_digest_not_validated:
  "fst (EncryptApiKeyWithDate
          (installed (keyrotation_binary (\<lambda>apiKey stamp. Some ''ab '') sampleReadDate
             (time_Date 2024 1 15 23 59 0 0)))
          ''testApiKey123'' (time_Date 2024 1 15 23 59 0 0) New) = Inr ''ab'' \<and>
   fst (ValidateApiKeyWithTolerance
          (installed (keyrotation_binary (\<lambda>apiKey stamp. Some ''ab '') sampleReadDate
             (time_Date 2024 1 15 23 59 0 0)))
          ''testApiKey123'' ''ab'' (time_Date 2024 1 15 23 59 0 0) 0 New) = Inr False"
proof -
  have tr: "TrimSpace (println ''ab '') = ''ab''" by (simp add: println_def eval_trim)
  show ?thesis
    by (simp add: EncryptApiKeyWithDate_binary ValidateApiKeyWithTolerance_def
        ValidateApiKey_binary Validate_exact Encrypt_def t0_iso read_0115 tr)
qed

subsection \<open>Claims on encryption and validation\<close>

text \<open>
  C1, as amended. Round trip, for a key that is not empty: if the binary reads the
  date that the wrapper passes (as the instant \<open>t'\<close>) and the hash gives a digest
  for the key and the DateStamp of that date, a text as the spec describes it (hex or
  base64), then encrypting the key at the instant \<open>t\<close> returns that digest, and
  validating it against the same key at the same instant with \<open>toleranceMinutes = 0\<close>
  returns true, through whichever helper and whenever the binary runs. For the empty
  key there is no round trip: encryption fails, and validation fails whatever digest
  it is given.
\<close>

theorem round_trip:
  "(apiKey \<noteq> [] \<and> readDate (Format t ''2006-01-02'') = Some t' \<and>
    H apiKey (DateStampOf t') = Some dg \<and> digestText dg \<longrightarrow>
      fst (EncryptApiKeyWithDate (installed (keyrotation_binary H readDate now)) apiKey t k)
        = Inr dg \<and>
      fst (ValidateApiKeyWithTolerance (installed (keyrotation_binary H readDate now'))
             apiKey dg t 0 k') = Inr True) \<and>
   fst (EncryptApiKeyWithDate (installed (keyrotation_binary H readDate now)) [] t k)
     = Inl (Error ''failed to encrypt API key with date: exit status 1'') \<and>
   fst (ValidateApiKeyWithTolerance (installed (keyrotation_binary H readDate now')) [] d t 0 k')
     = Inl (Error ''failed to validate API key: exit status 1'')"
proof -
  have trip: "fst (EncryptApiKeyWithDate (installed (keyrotation_binary H readDate now)) apiKey t k)
        = Inr dg \<and>
      fst (ValidateApiKeyWithTolerance (installed (keyrotation_binary H readDate now'))
             apiKey dg t 0 k') = Inr True"
    if a: "apiKey \<noteq> [] \<and> readDate (Format t ''2006-01-02'') = Some t' \<and>
        H apiKey (DateStampOf t') = Some dg \<and> digestText dg"
  proof -
    from a have tx: "digestText dg" by simp
    then have ne: "dg \<noteq> []" by (simp add: digestText_def)
    have e: "fst (EncryptApiKeyWithDate (installed (keyrotation_binary H readDate now)) apiKey t k)
        = Inr dg"
      unfolding EncryptApiKeyWithDate_binary Encrypt_def
      using a TrimSpace_println [OF tx] by simp
    have v: "fst (ValidateApiKeyWithTolerance (installed (keyrotation_binary H readDate now'))
             apiKey dg t 0 k') = Inr True"
      unfolding ValidateApiKeyWithTolerance_def ValidateApiKey_binary Validate_exact
      using a ne by simp
    from e v show ?thesis by simp
  qed
  have enc: "fst (EncryptApiKeyWithDate (installed (keyrotation_binary H readDate now)) [] t k)
     = Inl (Error ''failed to encrypt API key with date: exit status 1'')"
    by (simp add: EncryptApiKeyWithDate_binary Encrypt_def split: option.splits)
  have val: "fst (ValidateApiKeyWithTolerance (installed (keyrotation_binary H readDate now'))
         [] d t 0 k') = Inl (Error ''failed to validate API key: exit status 1'')"
    by (simp add: ValidateApiKeyWithTolerance_def ValidateApiKey_binary Validate_exact
        split: option.splits)
  from trip enc val show ?thesis by blast
qed

theorem round_trip_witness:
  "''testApiKey123'' \<noteq> [] \<and>
   sampleReadDate (Format (time_Date 2024 1 15 23 59 0 0) ''2006-01-02'')
     = Some \<lparr>unixSec = 1705276800, nsec = 0\<rparr> \<and>
   sampleHash ''testApiKey123'' (DateStampOf \<lparr>unixSec = 1705276800, nsec = 0\<rparr>)
     = Some ''746573744170694b65793132337c3230323430313135'' \<and>
   digestText ''746573744170694b65793132337c3230323430313135'' \<and>
   fst (EncryptApiKeyWithDate
          (installed (keyrotation_binary sampleHash sampleReadDate (time_Date 2024 1 15 23 59 0 0)))
          ''testApiKey123'' (time_Date 2024 1 15 23 59 0 0) New)
     = Inr ''746573744170694b65793132337c3230323430313135'' \<and>
   fst (ValidateApiKeyWithTolerance
          (installed (keyrotation_binary sampleHash sampleReadDate (time_Date 2024 1 16 0 1 0 0)))
          ''testApiKey123'' ''746573744170694b65793132337c3230323430313135''
          (time_Date 2024 1 15 23 59 0 0) 0 New)
     = Inr True"
proof -
  have key: "''testApiKey123'' \<noteq> []" by simp
  have r: "sampleReadDate (Format (time_Date 2024 1 15 23 59 0 0) ''2006-01-02'')
     = Some \<lparr>unixSec = 1705276800, nsec = 0\<rparr>"
    by (simp add: t0_iso read_0115)
  have h: "sampleHash ''testApiKey123'' (DateStampOf \<lparr>unixSec = 1705276800, nsec = 0\<rparr>)
     = Some ''746573744170694b65793132337c3230323430313135''"
    by (simp add: stamp_0115 hash_0115)
  have tx: "digestText ''746573744170694b65793132337c3230323430313135''"
    by (rule sampleHash_text [OF hash_0115])
  note T = round_trip
      [where H = sampleHash and apiKey = "''testApiKey123''" and readDate = sampleReadDate
         and now = "time_Date 2024 1 15 23 59 0 0" and t = "time_Date 2024 1 15 23 59 0 0"
         and t' = "\<lparr>unixSec = 1705276800, nsec = 0\<rparr>"
         and dg = "''746573744170694b65793132337c3230323430313135''"
         and k = New and now' = "time_Date 2024 1 16 0 1 0 0" and k' = New]
  from T key r h tx show ?thesis by blast
qed

text \<open>
  Where the claim as it was written fails: for the empty key, encryption at
  2024-01-15T23:59:00Z returns an error and no digest, and validating at the same
  instant with tolerance 0, whether the empty string that comes with the error or
  the digest of another key, returns an error and not true.
\<close>

theorem round_trip_empty_key_counterexample:
  "fst (EncryptApiKeyWithDate
          (installed (keyrotation_binary sampleHash sampleReadDate (time_Date 2024 1 15 23 59 0 0)))
          [] (time_Date 2024 1 15 23 59 0 0) New)
     = Inl (Error ''failed to encrypt API key with date: exit status 1'') \<and>
   fst (ValidateApiKeyWithTolerance
          (installed (keyrotation_binary sampleHash sampleReadDate (time_Date 2024 1 15 23 59 0 0)))
          [] [] (time_Date 2024 1 15 23 59 0 0) 0 New)
     = Inl (Error ''failed to validate API key: exit status 1'') \<and>
   fst (ValidateApiKeyWithTolerance
          (installed (keyrotation_binary sampleHash sampleReadDate (time_Date 2024 1 15 23 59 0 0)))
          [] ''746573744170694b65793132337c3230323430313135''
          (time_Date 2024 1 15 23 59 0 0) 0 New)
     = Inl (Error ''failed to validate API key: exit status 1'')"
  by (simp add: EncryptApiKeyWithDate_binary ValidateApiKeyWithTolerance_def ValidateApiKey_binary
      Validate_exact Encrypt_def t0_iso read_0115)



text \<open>
  C8. Encryption is deterministic: two invocations of \<open>EncryptApiKeyWithDate\<close> with
  the same key and the same instant give the same result, at whatever instants the
  binary runs and through whichever helper; two invocations of \<open>EncryptApiKey\<close>
  with the same key give the same result if the binary runs at the same instant, or
  at two instants of the same UTC day.
\<close>

theorem encryption_deterministic:
  "fst (EncryptApiKeyWithDate (installed (keyrotation_binary H readDate now1)) apiKey t k1)
     = fst (EncryptApiKeyWithDate (installed (keyrotation_binary H readDate now2)) apiKey t k2) \<and>
   (unixSec now1 div 86400 = unixSec now2 div 86400 \<longrightarrow>
      fst (EncryptApiKey (installed (keyrotation_binary H readDate now1)) apiKey k1)
        = fst (EncryptApiKey (installed (keyrotation_binary H readDate now2)) apiKey k2))"
proof -
  have "DateStampOf now1 = DateStampOf now2" if "unixSec now1 div 86400 = unixSec now2 div 86400"
    by (rule same_day_stamp [OF that])
  then show ?thesis
    by (simp add: EncryptApiKeyWithDate_binary EncryptApiKey_binary Encrypt_def)
qed

theorem encryption_deterministic_witness:
  "unixSec (time_Date 2024 1 15 23 59 0 0) div 86400
     = unixSec (time_Date 2024 1 15 0 0 1 0) div 86400 \<and>
   fst (EncryptApiKey
          (installed (keyrotation_binary sampleHash sampleReadDate (time_Date 2024 1 15 23 59 0 0)))
          ''testApiKey123'' New)
     = fst (EncryptApiKey
              (installed (keyrotation_binary sampleHash sampleReadDate (time_Date 2024 1 15 0 0 1 0)))
              ''testApiKey123'' (NewWithBinaryPath ''/usr/local/bin/keyrotation-binary''))"
proof -
  have sd: "unixSec (time_Date 2024 1 15 23 59 0 0) div 86400
     = unixSec (time_Date 2024 1 15 0 0 1 0) div 86400"
    by (simp add: eval_date cong: Let_value_cong)
  from encryption_deterministic [THEN conjunct2, THEN mp, OF sd] sd
  show ?thesis by blast
qed

text \<open>
  C5, as amended. With the date read and the hash not failing, validation for a given
  date (\<open>ValidateApiKey\<close>, \<open>ValidateApiKeyWithTolerance\<close>) fails exactly when the key or
  the digest is empty, and otherwise returns whether the digest is the expected one:
  a mismatch is false, not an error. Its \<open>toleranceMinutes\<close> is not read, so a
  negative one is not an error there. \<open>ValidateApiKeyTodayWithTolerance\<close> fails
  exactly when the key or the digest is empty or \<open>toleranceMinutes\<close> is negative, and
  otherwise returns whether the digest is the expected one for a candidate date. The
  failure reaches the caller as the wrapper's error around the exit status of the
  binary, which does not name InvalidInput.
\<close>

theorem validation_errors:
  "(readDate (Format t ''2006-01-02'') = Some t' \<and> H apiKey (DateStampOf t') = Some dg \<longrightarrow>
      isl (fst (ValidateApiKey (installed (keyrotation_binary H readDate now))
                  apiKey encryptedKey t k))
        = (apiKey = [] \<or> encryptedKey = []) \<and>
      isl (fst (ValidateApiKeyWithTolerance (installed (keyrotation_binary H readDate now))
                  apiKey encryptedKey t tol k))
        = (apiKey = [] \<or> encryptedKey = []) \<and>
      (apiKey \<noteq> [] \<and> encryptedKey \<noteq> [] \<longrightarrow>
         fst (ValidateApiKey (installed (keyrotation_binary H readDate now))
                apiKey encryptedKey t k) = Inr (encryptedKey = dg))) \<and>
   ((\<forall>c\<in>set (candidates now tol). H apiKey (DateStampOf c) \<noteq> None) \<longrightarrow>
      isl (fst (ValidateApiKeyTodayWithTolerance (installed (keyrotation_binary H readDate now))
                  apiKey encryptedKey tol k))
        = (apiKey = [] \<or> encryptedKey = [] \<or> tol < 0) \<and>
      (apiKey \<noteq> [] \<and> encryptedKey \<noteq> [] \<and> 0 \<le> tol \<longrightarrow>
         fst (ValidateApiKeyTodayWithTolerance (installed (keyrotation_binary H readDate now))
                apiKey encryptedKey tol k)
           = Inr (\<exists>c\<in>set (candidates now tol). H apiKey (DateStampOf c) = Some encryptedKey)))"
proof -
  have date: "isl (fst (ValidateApiKey (installed (keyrotation_binary H readDate now))
                  apiKey encryptedKey t k))
        = (apiKey = [] \<or> encryptedKey = []) \<and>
      isl (fst (ValidateApiKeyWithTolerance (installed (keyrotation_binary H readDate now))
                  apiKey encryptedKey t tol k))
        = (apiKey = [] \<or> encryptedKey = []) \<and>
      (apiKey \<noteq> [] \<and> encryptedKey \<noteq> [] \<longrightarrow>
         fst (ValidateApiKey (installed (keyrotation_binary H readDate now))
                apiKey encryptedKey t k) = Inr (encryptedKey = dg))"
    if "readDate (Format t ''2006-01-02'') = Some t' \<and> H apiKey (DateStampOf t') = Some dg"
    unfolding ValidateApiKeyWithTolerance_def ValidateApiKey_binary Validate_exact
    using that by simp
  have today: "isl (fst (ValidateApiKeyTodayWithTolerance (installed (keyrotation_binary H readDate now))
                  apiKey encryptedKey tol k))
        = (apiKey = [] \<or> encryptedKey = [] \<or> tol < 0) \<and>
      (apiKey \<noteq> [] \<and> encryptedKey \<noteq> [] \<and> 0 \<le> tol \<longrightarrow>
         fst (ValidateApiKeyTodayWithTolerance (installed (keyrotation_binary H readDate now))
                apiKey encryptedKey tol k)
           = Inr (\<exists>c\<in>set (candidates now tol). H apiKey (DateStampOf c) = Some encryptedKey))"
    if w: "\<forall>c\<in>set (candidates now tol). H apiKey (DateStampOf c) \<noteq> None"
    unfolding ValidateApiKeyTodayWithTolerance_binary
      Validate_window [where t = now and tol = tol and H = H and apiKey = apiKey, OF w]
    by auto
  from date today show ?thesis by blast
qed

theorem validation_errors_witness:
  "sampleReadDate (Format (time_Date 2024 1 16 0 1 0 0) ''2006-01-02'')
     = Some \<lparr>unixSec = 1705363200, nsec = 0\<rparr> \<and>
   sampleHash ''testApiKey123'' (DateStampOf \<lparr>unixSec = 1705363200, nsec = 0\<rparr>)
     = Some ''746573744170694b65793132337c3230323430313136'' \<and>
   fst (ValidateApiKey
          (installed (keyrotation_binary sampleHash sampleReadDate (time_Date 2024 1 16 0 1 0 0)))
          ''testApiKey123'' ''abc'' (time_Date 2024 1 16 0 1 0 0) New) = Inr False \<and>
   \<not> isl (fst (ValidateApiKeyTodayWithTolerance
                (installed (keyrotation_binary sampleHash sampleReadDate
                   (time_Date 2024 1 16 0 1 0 0)))
                ''testApiKey123'' ''abc'' 5 New)) \<and>
   isl (fst (ValidateApiKeyTodayWithTolerance
              (installed (keyrotation_binary sampleHash sampleReadDate
                 (time_Date 2024 1 16 0 1 0 0)))
              ''testApiKey123'' ''abc'' (- 1) New))"
proof -
  have r: "sampleReadDate (Format (time_Date 2024 1 16 0 1 0 0) ''2006-01-02'')
     = Some \<lparr>unixSec = 1705363200, nsec = 0\<rparr>"
    by (simp add: t1_iso read_0116)
  have h: "sampleHash ''testApiKey123'' (DateStampOf \<lparr>unixSec = 1705363200, nsec = 0\<rparr>)
     = Some ''746573744170694b65793132337c3230323430313136''"
    by (simp add: stamp_0116 hash_0116)
  have w: "\<forall>c\<in>set (candidates (time_Date 2024 1 16 0 1 0 0) tol).
             sampleHash ''testApiKey123'' (DateStampOf c) \<noteq> None" for tol
    by (simp add: sampleHash_def)
  note T = validation_errors
      [where H = sampleHash and readDate = sampleReadDate and apiKey = "''testApiKey123''"
         and encryptedKey = "''abc''" and now = "time_Date 2024 1 16 0 1 0 0"
         and t = "time_Date 2024 1 16 0 1 0 0" and k = New
         and t' = "\<lparr>unixSec = 1705363200, nsec = 0\<rparr>"
         and dg = "''746573744170694b65793132337c3230323430313136''"]
  have d: "fst (ValidateApiKey
          (installed (keyrotation_binary sampleHash sampleReadDate (time_Date 2024 1 16 0 1 0 0)))
          ''testApiKey123'' ''abc'' (time_Date 2024 1 16 0 1 0 0) New) = Inr False"
    using T [where tol = 5] r h by simp
  have p: "\<not> isl (fst (ValidateApiKeyTodayWithTolerance
                (installed (keyrotation_binary sampleHash sampleReadDate
                   (time_Date 2024 1 16 0 1 0 0)))
                ''testApiKey123'' ''abc'' 5 New))"
    using T [where tol = 5] w [of 5] by simp
  have n: "isl (fst (ValidateApiKeyTodayWithTolerance
              (installed (keyrotation_binary sampleHash sampleReadDate
                 (time_Date 2024 1 16 0 1 0 0)))
              ''testApiKey123'' ''abc'' (- 1) New))"
    using T [where tol = "- 1"] w [of "- 1"] by simp
  from r h d p n show ?thesis by blast
qed

theorem negative_tolerance_counterexample:
  "fst (ValidateApiKeyWithTolerance
          (installed (keyrotation_binary sampleHash sampleReadDate (time_Date 2024 1 16 0 1 0 0)))
          ''testApiKey123'' ''abc'' (time_Date 2024 1 16 0 1 0 0) (- 1) New) = Inr False"
  by (simp add: ValidateApiKeyWithTolerance_def ValidateApiKey_binary Validate_exact
      t1_iso read_0116 stamp_0116 hash_0116)

end
